theory Spec2Isabelle
  imports Complex_Main "HOL-Library.Sublist"
begin

section \<open>Values and strings\<close>

text \<open>
  Python strings are character lists; a character outside ASCII is the sequence of its
  bytes. The case mappings of ASCII are given by a table. \<open>str.lower\<close> is modelled by that
  table alone: the program only compares its result with \<open>'y'\<close>, which Python gives for
  \<open>y\<close> and \<open>Y\<close> and for no other string. \<open>str.upper\<close> is defined further down, with the
  world, which supplies the mapping outside ASCII.
\<close>

definition upper_letters :: string where
  "upper_letters = ''ABCDEFGHIJKLMNOPQRSTUVWXYZ''"

definition lower_letters :: string where
  "lower_letters = ''abcdefghijklmnopqrstuvwxyz''"

definition lower_char :: "char \<Rightarrow> char" where
  "lower_char c = (case map_of (zip upper_letters lower_letters) c of Some d \<Rightarrow> d | None \<Rightarrow> c)"

definition upper_char :: "char \<Rightarrow> char" where
  "upper_char c = (case map_of (zip lower_letters upper_letters) c of Some d \<Rightarrow> d | None \<Rightarrow> c)"

definition str_lower :: "string \<Rightarrow> string" where
  "str_lower s = map lower_char s"

definition is_ascii :: "char \<Rightarrow> bool" where
  "is_ascii c = (\<not> digit7 c)"

text \<open>\<open>s.rstrip('/')\<close>: every trailing slash is removed.\<close>

definition rstrip_slash :: "string \<Rightarrow> string" where
  "rstrip_slash s = rev (dropWhile (\<lambda>c. c = CHR ''/'') (rev s))"

text \<open>
  The value \<open>json.load\<close> and \<open>response.json()\<close> return, and the value \<open>json=\<close> sends.
  \<open>JObj kvs\<close> is the dict with the entries \<open>kvs\<close>; \<open>JFloat q\<close> is a finite float of
  value \<open>q\<close>.
\<close>

datatype json =
    JNull
  | JBool bool
  | JInt int
  | JFloat rat
  | JStr string
  | JArr "json list"
  | JObj "(string \<times> json) list"

text \<open>Python truthiness, as \<open>if client_id and client_secret\<close> tests it.\<close>

fun truthy :: "json \<Rightarrow> bool" where
  "truthy JNull = False"
| "truthy (JBool b) = b"
| "truthy (JInt i) = (i \<noteq> 0)"
| "truthy (JFloat q) = (q \<noteq> 0)"
| "truthy (JStr s) = (s \<noteq> [])"
| "truthy (JArr xs) = (xs \<noteq> [])"
| "truthy (JObj kvs) = (kvs \<noteq> [])"

section \<open>The world outside the program\<close>

record response =
  status_code :: int
  resp_text :: string

datatype http_method = GET | PUT | POST

text \<open>
  What a call of \<open>requests.get\<close>, \<open>requests.put\<close> or \<open>requests.post\<close> does: it returns a
  response, raises a \<open>RequestException\<close> (with the response it carries, if any), or is
  interrupted by the user.
\<close>

datatype http_outcome = Responds response | Fails "response option" | Interrupted

text \<open>What a call of \<open>input()\<close> reads; an exhausted list is end of file.\<close>

datatype input_ev = Line string | CtrlC

text \<open>
  What happens during one \<open>time.sleep(1)\<close> of the wait loop: nothing, the capture library
  writes the credential file, or the user interrupts. After the last element of the list
  nothing happens any more.
\<close>

datatype tick = Idle | Captured string | Interrupt

text \<open>
  What can keep \<open>main\<close> from opening \<open>credentials.json\<close>: another process removes the file
  before \<open>main\<close> looks for it again after the capture, or between that look and the
  \<open>open\<close>, or the operating system refuses the \<open>open\<close> (an \<open>OSError\<close> other than
  \<open>FileNotFoundError\<close>).
\<close>

datatype file_fault = NoFault | GoneBeforeCheck | GoneBeforeOpen | Denied

record world =
  parse :: "string \<Rightarrow> json option"
  http :: "http_method \<Rightarrow> string \<Rightarrow> json option \<Rightarrow> http_outcome"
  ticks :: "tick list"
  stale_unlink_fails :: bool
  cleanup_unlink_fails :: bool
  file_fault :: file_fault
  undecodable :: "string \<Rightarrow> bool"
  unicode_upper :: "string \<Rightarrow> string"
  server_name :: "string option"
  session_username :: "string option"

text \<open>
  \<open>parse\<close> is the JSON parser (\<open>None\<close>: the text is not JSON). \<open>http\<close> is the network and
  the server. \<open>stale_unlink_fails\<close> and \<open>cleanup_unlink_fails\<close> say whether the operating
  system refuses the \<open>unlink\<close> before the capture and the one of the final cleanup.
  \<open>undecodable c\<close> says, of a file content \<open>c\<close> that \<open>parse\<close> refuses, that its bytes are
  not text in the encoding \<open>open\<close> uses: \<open>json.load\<close> then raises \<open>UnicodeDecodeError\<close>
  rather than \<open>json.JSONDecodeError\<close>. \<open>unicode_upper\<close> is Python's \<open>str.upper\<close> on the
  strings that are not ASCII (it gives \<open>SS\<close> for the German sharp s).
  \<open>server_name\<close> is the private attribute the device name is read from, when it is there;
  \<open>session_username\<close> the user name of the captured session, when the session is there and
  gives one.
\<close>

definition open_fails :: "world \<Rightarrow> bool" where
  "open_fails w = (file_fault w \<noteq> NoFault)"

text \<open>
  \<open>s.upper()\<close>: the table on an ASCII string, the world's mapping on any other. Python's
  \<open>upper\<close> never turns a non-empty string into the empty one, so a world whose mapping
  does is read as leaving the string as it is.
\<close>

definition str_upper :: "world \<Rightarrow> string \<Rightarrow> string" where
  "str_upper w s =
     (if list_all is_ascii s then map upper_char s
      else case unicode_upper w s of [] \<Rightarrow> s | c # cs \<Rightarrow> c # cs)"

section \<open>Effects\<close>

datatype prompt =
    BaseUrl | ConfigureNow | ClientId | ClientSecret
  | AccountName | Region | Overwrite | DeleteNow

datatype msg =
    RemovingExisting | CouldNotRemoveExisting
  | DeviceAvailable string | PleaseTransferPlayback | WillCapture
  | CredentialsCreated | SessionCaptured string | ShuttingDownServer
  | CheckingServer | AlreadyConfigured | MissingApiCreds | DashboardHint
  | PleaseConfigure | BothMustBeProvided | ConfiguredOk
  | FailedToCommunicate string | ResponseStatus int
  | ResponseBodyJson json | ResponseBodyText string | EnsureRunning
  | UsingDefaultBaseUrl string | AccountNameEmpty | RegionEmpty
  | UsingExisting | FailedToObtain | CouldNotReadOrParse
  | Registering string string | RegisteredOk | ResponseFromServer string
  | FailedToCallApi | CredentialsDeleted | ErrorDeleting | CredentialsNotDeleted
  | Cancelled

datatype event =
    Log msg
  | Asked prompt
  | Entered prompt string
  | Http http_method string "json option"
  | Unlink
  | OpenCred
  | ZsCreate
  | ZsClose
  | Sleep

text \<open>
  The state: the input not read yet and the content of \<open>credentials.json\<close> (\<open>None\<close>: no
  such file).
\<close>

record state =
  inputs :: "input_ev list"
  cred :: "string option"

datatype exn =
    SystemExit int
  | KeyboardInterrupt
  | EOFError
  | AttributeError
  | RequestException "response option"
  | ResponseJSONDecodeError
  | JSONDecodeError
  | UnicodeDecodeError
  | FileNotFoundError
  | OSError

text \<open>
  \<open>ResponseJSONDecodeError\<close> is what \<open>response.json()\<close> raises: a \<open>RequestException\<close>
  with no response and a \<open>json.JSONDecodeError\<close> at once. \<open>FileNotFoundError\<close> is an
  \<open>OSError\<close> too. \<open>UnicodeDecodeError\<close> is a \<open>ValueError\<close> and neither of the others.

  A call returns a value, raises, or never returns. From a state it gives that result,
  the new state and the effects it had, oldest first.
\<close>

datatype 'a result = Return 'a | Raise exn | Diverge

type_synonym 'a prog = "state \<Rightarrow> 'a result \<times> state \<times> event list"

definition outcome :: "'a result \<times> state \<times> event list \<Rightarrow> 'a result" where
  "outcome x = fst x"

definition final :: "'a result \<times> state \<times> event list \<Rightarrow> state" where
  "final x = fst (snd x)"

definition events :: "'a result \<times> state \<times> event list \<Rightarrow> event list" where
  "events x = snd (snd x)"

definition return :: "'a \<Rightarrow> 'a prog" where
  "return a s = (Return a, s, [])"

definition raise :: "exn \<Rightarrow> 'a prog" where
  "raise e s = (Raise e, s, [])"

definition diverge :: "'a prog" where
  "diverge s = (Diverge, s, [])"

text \<open>The result \<open>x\<close> of a call, after the effects \<open>tr\<close> that came before it.\<close>

fun after :: "event list \<Rightarrow> 'a result \<times> state \<times> event list \<Rightarrow> 'a result \<times> state \<times> event list" where
  "after tr (r, s, tr') = (r, s, tr @ tr')"

definition pbind :: "'a prog \<Rightarrow> ('a \<Rightarrow> 'b prog) \<Rightarrow> 'b prog" where
  "pbind m f s =
     (case m s of
        (Return a, s', tr) \<Rightarrow> after tr (f a s')
      | (Raise e, s', tr) \<Rightarrow> (Raise e, s', tr)
      | (Diverge, s', tr) \<Rightarrow> (Diverge, s', tr))"

text \<open>\<open>try: m except ...: h\<close>; the handler \<open>h\<close> raises again what no clause catches.\<close>

definition try_except :: "'a prog \<Rightarrow> (exn \<Rightarrow> 'a prog) \<Rightarrow> 'a prog" where
  "try_except m h s =
     (case m s of
        (Raise e, s', tr) \<Rightarrow> after tr (h e s')
      | (r, s', tr) \<Rightarrow> (r, s', tr))"

text \<open>
  \<open>try: m finally: fin\<close>; what \<open>fin\<close> raises replaces what \<open>m\<close> returned or raised.
\<close>

definition try_finally :: "'a prog \<Rightarrow> unit prog \<Rightarrow> 'a prog" where
  "try_finally m fin s =
     (case m s of
        (Diverge, s', tr) \<Rightarrow> (Diverge, s', tr)
      | (r, s', tr) \<Rightarrow>
          (case fin s' of
             (Return u, s'', tr') \<Rightarrow> (r, s'', tr @ tr')
           | (Raise e, s'', tr') \<Rightarrow> (Raise e, s'', tr @ tr')
           | (Diverge, s'', tr') \<Rightarrow> (Diverge, s'', tr @ tr')))"

definition emit :: "event \<Rightarrow> unit prog" where
  "emit e s = (Return (), s, [e])"

definition log :: "msg \<Rightarrow> unit prog" where
  "log m = emit (Log m)"

definition sys_exit :: "int \<Rightarrow> 'a prog" where
  "sys_exit n = raise (SystemExit n)"

definition input :: "prompt \<Rightarrow> string prog" where
  "input p s =
     (case inputs s of
        [] \<Rightarrow> (Raise EOFError, s, [Asked p])
      | CtrlC # rest \<Rightarrow> (Raise KeyboardInterrupt, s\<lparr>inputs := rest\<rparr>, [Asked p])
      | Line l # rest \<Rightarrow> (Return l, s\<lparr>inputs := rest\<rparr>, [Asked p, Entered p l]))"

definition request :: "world \<Rightarrow> http_method \<Rightarrow> string \<Rightarrow> json option \<Rightarrow> response prog" where
  "request w m url body =
     pbind (emit (Http m url body)) (\<lambda>_.
       case http w m url body of
         Responds r \<Rightarrow> return r
       | Fails ro \<Rightarrow> raise (RequestException ro)
       | Interrupted \<Rightarrow> raise KeyboardInterrupt)"

text \<open>\<open>Response.raise_for_status\<close> of requests: an \<open>HTTPError\<close> for 4xx and 5xx.\<close>

definition raise_for_status :: "response \<Rightarrow> unit prog" where
  "raise_for_status r =
     (if 400 \<le> status_code r \<and> status_code r < 600
      then raise (RequestException (Some r)) else return ())"

definition response_json :: "world \<Rightarrow> response \<Rightarrow> json prog" where
  "response_json w r =
     (case parse w (resp_text r) of
        None \<Rightarrow> raise ResponseJSONDecodeError
      | Some j \<Rightarrow> return j)"

text \<open>\<open>data.get(k)\<close>: only a dict has the method.\<close>

definition dict_get :: "json \<Rightarrow> string \<Rightarrow> json prog" where
  "dict_get data k =
     (case data of
        JObj kvs \<Rightarrow> return (case map_of kvs k of None \<Rightarrow> JNull | Some v \<Rightarrow> v)
      | _ \<Rightarrow> raise AttributeError)"

definition exists_cred :: "bool prog" where
  "exists_cred s = (Return (cred s \<noteq> None), s, [])"

definition unlink_cred :: "bool \<Rightarrow> unit prog" where
  "unlink_cred fails =
     pbind (emit Unlink) (\<lambda>_ s.
       if fails \<or> cred s = None then (Raise OSError, s, [])
       else (Return (), s\<lparr>cred := None\<rparr>, []))"

text \<open>Another process removes \<open>credentials.json\<close>, or does not.\<close>

definition vanish :: "bool \<Rightarrow> unit prog" where
  "vanish gone s = (Return (), if gone then s\<lparr>cred := None\<rparr> else s, [])"

text \<open>\<open>with open(cred_file, "r") as f: json.load(f)\<close>\<close>

definition load_cred :: "world \<Rightarrow> json prog" where
  "load_cred w =
     pbind (vanish (file_fault w = GoneBeforeOpen)) (\<lambda>_.
     pbind (emit OpenCred) (\<lambda>_ s.
       if file_fault w = Denied then (Raise OSError, s, [])
       else case cred s of
         None \<Rightarrow> (Raise FileNotFoundError, s, [])
       | Some c \<Rightarrow>
           (case parse w c of
              None \<Rightarrow>
                if undecodable w c then (Raise UnicodeDecodeError, s, [])
                else (Raise JSONDecodeError, s, [])
            | Some j \<Rightarrow> (Return j, s, []))))"


text \<open>The clauses \<open>except OSError\<close> and \<open>except requests.exceptions.RequestException\<close>.\<close>

definition is_os_error :: "exn \<Rightarrow> bool" where
  "is_os_error e = (e = OSError \<or> e = FileNotFoundError)"

definition request_exception :: "exn \<Rightarrow> response option option" where
  "request_exception e =
     (case e of
        RequestException ro \<Rightarrow> Some ro
      | ResponseJSONDecodeError \<Rightarrow> Some None
      | _ \<Rightarrow> None)"

section \<open>Credential capture\<close>

definition sleep :: "tick \<Rightarrow> unit prog" where
  "sleep t =
     pbind (emit Sleep) (\<lambda>_ s.
       case t of
         Idle \<Rightarrow> (Return (), s, [])
       | Captured c \<Rightarrow> (Return (), s\<lparr>cred := Some c\<rparr>, [])
       | Interrupt \<Rightarrow> (Raise KeyboardInterrupt, s, []))"

text \<open>\<open>credential_file.is_file() and credential_file.stat().st_size > 0\<close>\<close>

definition cred_ready :: "bool prog" where
  "cred_ready s = (Return (case cred s of None \<Rightarrow> False | Some c \<Rightarrow> c \<noteq> []), s, [])"

text \<open>The body of the \<open>if\<close> in the loop, up to the \<open>break\<close>.\<close>

definition session_captured :: "world \<Rightarrow> unit prog" where
  "session_captured w =
     pbind (log CredentialsCreated) (\<lambda>_.
       case session_username w of
         None \<Rightarrow> return ()
       | Some username \<Rightarrow> log (SessionCaptured username))"

text \<open>
  \<open>while True\<close>, by recursion on what happens during the sleeps. When nothing happens
  any more and the file is still missing or empty, the loop never ends.
\<close>

primrec wait_loop :: "world \<Rightarrow> tick list \<Rightarrow> unit prog" where
  "wait_loop w [] =
     pbind (sleep Idle) (\<lambda>_.
     pbind cred_ready (\<lambda>ready.
       if ready then session_captured w else diverge))"
| "wait_loop w (t # ts) =
     pbind (sleep t) (\<lambda>_.
     pbind cred_ready (\<lambda>ready.
       if ready then session_captured w else wait_loop w ts))"

definition get_spotify_session_and_wait_for_credentials :: "world \<Rightarrow> unit prog" where
  "get_spotify_session_and_wait_for_credentials w =
     pbind exists_cred (\<lambda>ex.
     pbind (if ex then
              pbind (log RemovingExisting) (\<lambda>_.
              try_except (unlink_cred (stale_unlink_fails w))
                (\<lambda>e. if is_os_error e
                      then pbind (log CouldNotRemoveExisting) (\<lambda>_. sys_exit 1)
                      else raise e))
            else return ()) (\<lambda>_.
     pbind (emit ZsCreate) (\<lambda>_.
     let device_name = (case server_name w of None \<Rightarrow> ''librespot-spotizerr'' | Some n \<Rightarrow> n) in
     pbind (log (DeviceAvailable device_name)) (\<lambda>_.
     pbind (log PleaseTransferPlayback) (\<lambda>_.
     pbind (log WillCapture) (\<lambda>_.
     try_finally (wait_loop w (ticks w))
       (pbind (log ShuttingDownServer) (\<lambda>_. emit ZsClose))))))))"

section \<open>Server credential bootstrap\<close>

text \<open>The \<open>except\<close> clause of \<open>check_and_configure_api_creds\<close>.\<close>

definition api_error :: "world \<Rightarrow> string \<Rightarrow> response option \<Rightarrow> bool prog" where
  "api_error w api_config_url ro =
     pbind (log (FailedToCommunicate api_config_url)) (\<lambda>_.
     pbind (case ro of
              None \<Rightarrow> return ()
            | Some r \<Rightarrow>
                pbind (log (ResponseStatus (status_code r))) (\<lambda>_.
                try_except
                  (pbind (response_json w r) (\<lambda>j. log (ResponseBodyJson j)))
                  (\<lambda>e. if e = JSONDecodeError \<or> e = ResponseJSONDecodeError
                        then log (ResponseBodyText (resp_text r))
                        else raise e))) (\<lambda>_.
     pbind (log EnsureRunning) (\<lambda>_.
     return False)))"

text \<open>
  \<open>check_and_configure_api_creds\<close> once the user has agreed to configure: the two
  values are read and sent.
\<close>

definition configure_api_creds :: "world \<Rightarrow> string \<Rightarrow> bool prog" where
  "configure_api_creds w api_config_url =
     pbind (input ClientId) (\<lambda>new_client_id.
     pbind (input ClientSecret) (\<lambda>new_client_secret.
     if new_client_id = [] \<or> new_client_secret = []
     then pbind (log BothMustBeProvided) (\<lambda>_. return False)
     else
       let payload = JObj [(''client_id'', JStr new_client_id),
                           (''client_secret'', JStr new_client_secret)] in
       pbind (request w PUT api_config_url (Some payload)) (\<lambda>put_response.
       pbind (raise_for_status put_response) (\<lambda>_.
       pbind (log ConfiguredOk) (\<lambda>_.
       return True)))))"

text \<open>The \<open>try\<close> block of \<open>check_and_configure_api_creds\<close>.\<close>

definition check_api_creds :: "world \<Rightarrow> string \<Rightarrow> bool prog" where
  "check_api_creds w api_config_url =
     pbind (request w GET api_config_url None) (\<lambda>response.
     pbind (if status_code response \<ge> 400 then raise_for_status response else return ()) (\<lambda>_.
     pbind (response_json w response) (\<lambda>data.
     pbind (dict_get data ''client_id'') (\<lambda>client_id.
     pbind (dict_get data ''client_secret'') (\<lambda>client_secret.
     if truthy client_id \<and> truthy client_secret
     then pbind (log AlreadyConfigured) (\<lambda>_. return True)
     else
       pbind (log MissingApiCreds) (\<lambda>_.
       pbind (log DashboardHint) (\<lambda>_.
       pbind (input ConfigureNow) (\<lambda>answer.
       let configure_now = str_lower answer in
       if configure_now \<noteq> ''y''
       then pbind (log PleaseConfigure) (\<lambda>_. return False)
       else configure_api_creds w api_config_url))))))))"

definition check_and_configure_api_creds :: "world \<Rightarrow> string \<Rightarrow> bool prog" where
  "check_and_configure_api_creds w base_url =
     (let api_config_url = rstrip_slash base_url @ ''/api/credentials/spotify_api_config'' in
      pbind (log CheckingServer) (\<lambda>_.
      try_except (check_api_creds w api_config_url)
        (\<lambda>e. case request_exception e of
               None \<Rightarrow> raise e
             | Some ro \<Rightarrow> api_error w api_config_url ro)))"

section \<open>Account registration and orchestration\<close>

text \<open>The \<open>finally\<close> block of \<open>main\<close>: the deletion prompt.\<close>

definition main_cleanup :: "world \<Rightarrow> unit prog" where
  "main_cleanup w =
     pbind (input DeleteNow) (\<lambda>answer.
     let cleanup = str_lower answer in
     if cleanup = ''y''
     then try_except
            (pbind exists_cred (\<lambda>ex.
               if ex then pbind (unlink_cred (cleanup_unlink_fails w)) (\<lambda>_. log CredentialsDeleted)
               else return ()))
            (\<lambda>e. if is_os_error e then log ErrorDeleting else raise e)
     else log CredentialsNotDeleted)"

text \<open>The \<open>try\<close> and \<open>except\<close> blocks around \<open>requests.post\<close>.\<close>

definition main_post :: "world \<Rightarrow> string \<Rightarrow> json \<Rightarrow> unit prog" where
  "main_post w api_url payload =
     try_except
       (pbind (request w POST api_url (Some payload)) (\<lambda>response.
        pbind (raise_for_status response) (\<lambda>_.
        pbind (log RegisteredOk) (\<lambda>_.
        if resp_text response \<noteq> [] then log (ResponseFromServer (resp_text response))
        else return ()))))
       (\<lambda>e. case request_exception e of
              None \<Rightarrow> raise e
            | Some ro \<Rightarrow>
                pbind (log FailedToCallApi) (\<lambda>_.
                pbind (case ro of
                         None \<Rightarrow> return ()
                       | Some r \<Rightarrow>
                           pbind (log (ResponseStatus (status_code r))) (\<lambda>_.
                           log (ResponseBodyText (resp_text r)))) (\<lambda>_.
                sys_exit 1)))"

text \<open>
  \<open>main\<close> from the second \<open>cred_file.exists()\<close> on: reading the file, the request, the
  cleanup and \<open>sys.exit(0)\<close>.
\<close>

definition main_register :: "world \<Rightarrow> string \<Rightarrow> string \<Rightarrow> string \<Rightarrow> unit prog" where
  "main_register w base_url account_name region =
     pbind (vanish (file_fault w = GoneBeforeCheck)) (\<lambda>_.
     pbind exists_cred (\<lambda>ex.
     pbind (if \<not> ex then pbind (log FailedToObtain) (\<lambda>_. sys_exit 1) else return ()) (\<lambda>_.
     pbind (try_except (load_cred w)
              (\<lambda>e. if e = FileNotFoundError \<or> e = JSONDecodeError \<or> e = ResponseJSONDecodeError
                    then pbind (log CouldNotReadOrParse) (\<lambda>_. sys_exit 1)
                    else raise e)) (\<lambda>credentials_data.
     let payload = JObj [(''region'', JStr region), (''blob_content'', credentials_data)];
         api_url = rstrip_slash base_url @ ''/api/credentials/spotify/'' @ account_name in
     pbind (log (Registering account_name api_url)) (\<lambda>_.
     pbind (try_finally (main_post w api_url payload) (main_cleanup w)) (\<lambda>_.
     sys_exit 0))))))"

text \<open>The choice between capturing and reusing \<open>credentials.json\<close>.\<close>

definition main_credentials :: "world \<Rightarrow> unit prog" where
  "main_credentials w =
     pbind exists_cred (\<lambda>ex.
       if ex then
         pbind (input Overwrite) (\<lambda>answer.
         let overwrite = str_lower answer in
         if overwrite = ''y'' then get_spotify_session_and_wait_for_credentials w
         else log UsingExisting)
       else get_spotify_session_and_wait_for_credentials w)"

text \<open>\<open>main\<close> after the bootstrap has succeeded: the two prompts and the rest.\<close>

definition main_account :: "world \<Rightarrow> string \<Rightarrow> unit prog" where
  "main_account w base_url =
     pbind (input AccountName) (\<lambda>account_name.
     pbind (if account_name = [] then pbind (log AccountNameEmpty) (\<lambda>_. sys_exit 1)
            else return ()) (\<lambda>_.
     pbind (input Region) (\<lambda>entered.
     let region = str_upper w entered in
     pbind (if region = [] then pbind (log RegionEmpty) (\<lambda>_. sys_exit 1)
            else return ()) (\<lambda>_.
     pbind (main_credentials w) (\<lambda>_.
     main_register w base_url account_name region)))))"

text \<open>The base URL as \<open>main\<close> uses it, from the line entered.\<close>

definition main_base_url :: "string prog" where
  "main_base_url =
     pbind (input BaseUrl) (\<lambda>entered.
     pbind (if entered = []
            then pbind (log (UsingDefaultBaseUrl ''http://localhost:7171'')) (\<lambda>_.
                 return ''http://localhost:7171'')
            else return entered) (\<lambda>base_url.
     return (if prefix ''http://'' base_url \<or> prefix ''https://'' base_url then base_url
             else ''http://'' @ base_url)))"

definition main :: "world \<Rightarrow> unit prog" where
  "main w =
     try_except
       (pbind main_base_url (\<lambda>base_url.
        pbind (check_and_configure_api_creds w base_url) (\<lambda>ok.
        pbind (if \<not> ok then sys_exit 1 else return ()) (\<lambda>_.
        main_account w base_url))))
       (\<lambda>e. if e = KeyboardInterrupt
             then pbind (log Cancelled) (\<lambda>_. sys_exit 0)
             else raise e)"

text \<open>
  The exit status of the process: the argument of \<open>sys.exit\<close>, 1 for an exception nothing
  catches, none when the program never ends.
\<close>

fun exit_status :: "unit result \<Rightarrow> int option" where
  "exit_status (Return u) = Some 0"
| "exit_status (Raise (SystemExit n)) = Some n"
| "exit_status (Raise e) = Some 1"
| "exit_status Diverge = None"

text \<open>A run of the program from the command line.\<close>

definition run :: "world \<Rightarrow> input_ev list \<Rightarrow> string option \<Rightarrow> unit result \<times> state \<times> event list" where
  "run w ins file = main w \<lparr>inputs = ins, cred = file\<rparr>"

section \<open>Terms of the specification\<close>

text \<open>
  The URL of the configuration resource and the URL of the registration: the base URL
  without its trailing slashes, then the path.
\<close>

definition api_config_url :: "string \<Rightarrow> string" where
  "api_config_url base_url = rstrip_slash base_url @ ''/api/credentials/spotify_api_config''"

definition api_url :: "string \<Rightarrow> string \<Rightarrow> string" where
  "api_url base_url account_name =
     rstrip_slash base_url @ ''/api/credentials/spotify/'' @ account_name"

text \<open>
  The base URL \<open>main\<close> uses for the line entered: the default for an empty line, and
  \<open>http://\<close> in front of a line with no scheme.
\<close>

definition used_base_url :: "string \<Rightarrow> string" where
  "used_base_url entered =
     (let base_url = (if entered = [] then ''http://localhost:7171'' else entered) in
      if prefix ''http://'' base_url \<or> prefix ''https://'' base_url then base_url
      else ''http://'' @ base_url)"

text \<open>
  The JSON bodies of the PUT and of the POST.
\<close>

definition credentials_payload :: "string \<Rightarrow> string \<Rightarrow> json" where
  "credentials_payload cid csec = JObj [(''client_id'', JStr cid), (''client_secret'', JStr csec)]"

definition registration_payload :: "string \<Rightarrow> json \<Rightarrow> json" where
  "registration_payload region blob = JObj [(''region'', JStr region), (''blob_content'', blob)]"

text \<open>
  A request fails when it raises a \<open>RequestException\<close> or is answered with a status for
  which \<open>raise_for_status\<close> raises; \<open>request_failure\<close> gives the response the exception
  carries, if any.
\<close>

definition request_failure :: "http_outcome \<Rightarrow> response option option" where
  "request_failure out =
     (case out of
        Fails ro \<Rightarrow> Some ro
      | Responds r \<Rightarrow> if 400 \<le> status_code r \<and> status_code r < 600 then Some (Some r) else None
      | Interrupted \<Rightarrow> None)"

text \<open>
  What the bootstrap logs for a failed request: the failure, then the status and the body
  of the response when there is one, the body as JSON when it parses and as text otherwise.
\<close>

definition failure_report :: "world \<Rightarrow> string \<Rightarrow> response option \<Rightarrow> event list" where
  "failure_report w url ro =
     Log (FailedToCommunicate url) #
     (case ro of
        None \<Rightarrow> []
      | Some r \<Rightarrow>
          [Log (ResponseStatus (status_code r)),
           Log (case parse w (resp_text r) of
                  Some j \<Rightarrow> ResponseBodyJson j
                | None \<Rightarrow> ResponseBodyText (resp_text r))]) @
     [Log EnsureRunning]"

fun is_put :: "event \<Rightarrow> bool" where
  "is_put (Http PUT url body) = True"
| "is_put e = False"

fun is_post :: "event \<Rightarrow> bool" where
  "is_post (Http POST url body) = True"
| "is_post e = False"

section \<open>Example worlds\<close>

text \<open>
  A parser that knows three texts, a world whose server answers each method in a fixed way
  and in which the capture library writes the file during the second sleep, and a response
  with a given status.
\<close>

definition example_parse :: "string \<Rightarrow> json option" where
  "example_parse t =
     (if t = ''{}'' then Some (JObj [])
      else if t = ''configured''
        then Some (JObj [(''client_id'', JStr ''id''), (''client_secret'', JStr ''secret'')])
      else if t = ''blob'' then Some (JObj [(''username'', JStr ''user'')])
      else None)"

definition example_world :: "http_outcome \<Rightarrow> http_outcome \<Rightarrow> http_outcome \<Rightarrow> world" where
  "example_world g p q =
     \<lparr>parse = example_parse,
      http = (\<lambda>m url body. case m of GET \<Rightarrow> g | PUT \<Rightarrow> p | POST \<Rightarrow> q),
      ticks = [Idle, Captured ''blob''],
      stale_unlink_fails = False, cleanup_unlink_fails = False, file_fault = NoFault,
      undecodable = (\<lambda>c. False), unicode_upper = (\<lambda>s. s),
      server_name = None, session_username = None\<rparr>"

definition status :: "int \<Rightarrow> string \<Rightarrow> http_outcome" where
  "status n t = Responds \<lparr>status_code = n, resp_text = t\<rparr>"

section \<open>Auxiliary definitions\<close>

text \<open>
  \<open>emits P m\<close>: every effect of \<open>m\<close>, from any state, satisfies \<open>P\<close>.
\<close>

definition emits :: "(event \<Rightarrow> bool) \<Rightarrow> 'a prog \<Rightarrow> bool" where
  "emits P m = (\<forall>s. list_all P (events (m s)))"

text \<open>
  What the GET tells the bootstrap.
\<close>

datatype config_report =
    Configured | Missing | NotADict | BodyNotJson | GetFailed "response option" | GetInterrupted

definition lookup :: "(string \<times> json) list \<Rightarrow> string \<Rightarrow> json" where
  "lookup kvs k = (case map_of kvs k of None \<Rightarrow> JNull | Some v \<Rightarrow> v)"

definition get_report :: "world \<Rightarrow> string \<Rightarrow> config_report" where
  "get_report w url =
     (case http w GET url None of
        Interrupted \<Rightarrow> GetInterrupted
      | Fails ro \<Rightarrow> GetFailed ro
      | Responds r \<Rightarrow>
          if 400 \<le> status_code r \<and> status_code r < 600 then GetFailed (Some r)
          else case parse w (resp_text r) of
            None \<Rightarrow> BodyNotJson
          | Some (JObj kvs) \<Rightarrow>
              if truthy (lookup kvs ''client_id'') \<and> truthy (lookup kvs ''client_secret'')
              then Configured else Missing
          | Some _ \<Rightarrow> NotADict)"

text \<open>
  The bootstrap as a decision tree over the report and the input: \<open>boot_eq\<close> below proves
  it equal to \<open>check_and_configure_api_creds\<close>.
\<close>

definition handler :: "world \<Rightarrow> string \<Rightarrow> exn \<Rightarrow> bool prog" where
  "handler w url e = (case request_exception e of None \<Rightarrow> raise e | Some ro \<Rightarrow> api_error w url ro)"

fun configure_result :: "world \<Rightarrow> string \<Rightarrow> state \<Rightarrow> input_ev list \<Rightarrow> bool result \<times> state \<times> event list" where
  "configure_result w url s [] = (Raise EOFError, s, [Asked ClientId])"
| "configure_result w url s (CtrlC # rest) =
     (Raise KeyboardInterrupt, s\<lparr>inputs := rest\<rparr>, [Asked ClientId])"
| "configure_result w url s [Line cid] =
     (Raise EOFError, s\<lparr>inputs := []\<rparr>, [Asked ClientId, Entered ClientId cid, Asked ClientSecret])"
| "configure_result w url s (Line cid # CtrlC # rest) =
     (Raise KeyboardInterrupt, s\<lparr>inputs := rest\<rparr>,
      [Asked ClientId, Entered ClientId cid, Asked ClientSecret])"
| "configure_result w url s (Line cid # Line csec # rest) =
     after [Asked ClientId, Entered ClientId cid, Asked ClientSecret, Entered ClientSecret csec]
      (if cid = [] \<or> csec = [] then (Return False, s\<lparr>inputs := rest\<rparr>, [Log BothMustBeProvided])
       else after [Http PUT url (Some (credentials_payload cid csec))]
         (case http w PUT url (Some (credentials_payload cid csec)) of
            Interrupted \<Rightarrow> (Raise KeyboardInterrupt, s\<lparr>inputs := rest\<rparr>, [])
          | Responds r \<Rightarrow>
              if 400 \<le> status_code r \<and> status_code r < 600
              then (Return False, s\<lparr>inputs := rest\<rparr>, failure_report w url (Some r))
              else (Return True, s\<lparr>inputs := rest\<rparr>, [Log ConfiguredOk])
          | Fails ro \<Rightarrow> (Return False, s\<lparr>inputs := rest\<rparr>, failure_report w url ro)))"

fun ask_result :: "world \<Rightarrow> string \<Rightarrow> state \<Rightarrow> input_ev list \<Rightarrow> bool result \<times> state \<times> event list" where
  "ask_result w url s [] = (Raise EOFError, s, [Asked ConfigureNow])"
| "ask_result w url s (CtrlC # rest) =
     (Raise KeyboardInterrupt, s\<lparr>inputs := rest\<rparr>, [Asked ConfigureNow])"
| "ask_result w url s (Line a # rest) =
     after [Asked ConfigureNow, Entered ConfigureNow a]
       (if str_lower a \<noteq> ''y'' then (Return False, s\<lparr>inputs := rest\<rparr>, [Log PleaseConfigure])
        else configure_result w url (s\<lparr>inputs := rest\<rparr>) rest)"

definition boot_result :: "world \<Rightarrow> string \<Rightarrow> state \<Rightarrow> bool result \<times> state \<times> event list" where
  "boot_result w url s =
     after [Log CheckingServer, Http GET url None]
      (case get_report w url of
         Configured \<Rightarrow> (Return True, s, [Log AlreadyConfigured])
       | Missing \<Rightarrow> after [Log MissingApiCreds, Log DashboardHint] (ask_result w url s (inputs s))
       | NotADict \<Rightarrow> (Raise AttributeError, s, [])
       | BodyNotJson \<Rightarrow> (Return False, s, failure_report w url None)
       | GetFailed ro \<Rightarrow> (Return False, s, failure_report w url ro)
       | GetInterrupted \<Rightarrow> (Raise KeyboardInterrupt, s, []))"

text \<open>
  The effects of the capture phase before the wait, and the wait with its \<open>finally\<close>.
\<close>

definition capture_event :: "event \<Rightarrow> bool" where
  "capture_event e =
     (case e of
        Log m \<Rightarrow> m = CredentialsCreated \<or> (\<exists>u. m = SessionCaptured u)
      | Sleep \<Rightarrow> True
      | _ \<Rightarrow> False)"

definition capture_intro :: "world \<Rightarrow> event list" where
  "capture_intro w =
     [ZsCreate,
      Log (DeviceAvailable (case server_name w of None \<Rightarrow> ''librespot-spotizerr'' | Some n \<Rightarrow> n)),
      Log PleaseTransferPlayback, Log WillCapture]"

definition waiting :: "world \<Rightarrow> unit prog" where
  "waiting w =
     try_finally (wait_loop w (ticks w)) (pbind (log ShuttingDownServer) (\<lambda>_. emit ZsClose))"

text \<open>
  The registration and the orchestration as decision trees: \<open>main_post_eq\<close>,
  \<open>main_cleanup_eq\<close>, \<open>main_account_eq\<close> and \<open>main_eq\<close> below prove them equal to the
  functions of the model.
\<close>

definition post_result :: "world \<Rightarrow> string \<Rightarrow> json \<Rightarrow> state \<Rightarrow> unit result \<times> state \<times> event list" where
  "post_result w url payload s =
     after [Http POST url (Some payload)]
      (case http w POST url (Some payload) of
         Interrupted \<Rightarrow> (Raise KeyboardInterrupt, s, [])
       | Fails ro \<Rightarrow>
           (Raise (SystemExit 1), s,
            Log FailedToCallApi #
            (case ro of
               None \<Rightarrow> []
             | Some r \<Rightarrow> [Log (ResponseStatus (status_code r)), Log (ResponseBodyText (resp_text r))]))
       | Responds r \<Rightarrow>
           if 400 \<le> status_code r \<and> status_code r < 600
           then (Raise (SystemExit 1), s,
                 [Log FailedToCallApi, Log (ResponseStatus (status_code r)),
                  Log (ResponseBodyText (resp_text r))])
           else (Return (), s,
                 Log RegisteredOk #
                 (if resp_text r \<noteq> [] then [Log (ResponseFromServer (resp_text r))] else [])))"

fun cleanup_result :: "world \<Rightarrow> state \<Rightarrow> input_ev list \<Rightarrow> unit result \<times> state \<times> event list" where
  "cleanup_result w s [] = (Raise EOFError, s, [Asked DeleteNow])"
| "cleanup_result w s (CtrlC # rest) =
     (Raise KeyboardInterrupt, s\<lparr>inputs := rest\<rparr>, [Asked DeleteNow])"
| "cleanup_result w s (Line a # rest) =
     after [Asked DeleteNow, Entered DeleteNow a]
      (if str_lower a = ''y'' then
         (if cred s = None then (Return (), s\<lparr>inputs := rest\<rparr>, [])
          else if cleanup_unlink_fails w
            then (Return (), s\<lparr>inputs := rest\<rparr>, [Unlink, Log ErrorDeleting])
          else (Return (), s\<lparr>inputs := rest, cred := None\<rparr>, [Unlink, Log CredentialsDeleted]))
       else (Return (), s\<lparr>inputs := rest\<rparr>, [Log CredentialsNotDeleted]))"

definition post_and_cleanup :: "world \<Rightarrow> string \<Rightarrow> json \<Rightarrow> unit prog" where
  "post_and_cleanup w url payload =
     pbind (try_finally (main_post w url payload) (main_cleanup w)) (\<lambda>_. sys_exit 0)"

definition finish :: "world \<Rightarrow> string \<Rightarrow> string \<Rightarrow> string \<Rightarrow> unit prog" where
  "finish w b n reg = pbind (main_credentials w) (\<lambda>_. main_register w b n reg)"

fun account_result :: "world \<Rightarrow> string \<Rightarrow> state \<Rightarrow> input_ev list \<Rightarrow> unit result \<times> state \<times> event list" where
  "account_result w b s [] = (Raise EOFError, s, [Asked AccountName])"
| "account_result w b s (CtrlC # rest) =
     (Raise KeyboardInterrupt, s\<lparr>inputs := rest\<rparr>, [Asked AccountName])"
| "account_result w b s (Line n # rest) =
     after [Asked AccountName, Entered AccountName n]
      (if n = [] then (Raise (SystemExit 1), s\<lparr>inputs := rest\<rparr>, [Log AccountNameEmpty])
       else case rest of
         [] \<Rightarrow> (Raise EOFError, s\<lparr>inputs := []\<rparr>, [Asked Region])
       | CtrlC # rest' \<Rightarrow> (Raise KeyboardInterrupt, s\<lparr>inputs := rest'\<rparr>, [Asked Region])
       | Line r # rest' \<Rightarrow>
           after [Asked Region, Entered Region r]
            (if r = [] then (Raise (SystemExit 1), s\<lparr>inputs := rest'\<rparr>, [Log RegionEmpty])
             else finish w b n (str_upper w r) (s\<lparr>inputs := rest'\<rparr>)))"

fun on_interrupt :: "unit result \<times> state \<times> event list \<Rightarrow> unit result \<times> state \<times> event list" where
  "on_interrupt (Raise e, s, tr) =
     (if e = KeyboardInterrupt then (Raise (SystemExit 0), s, tr @ [Log Cancelled])
      else (Raise e, s, tr))"
| "on_interrupt (r, s, tr) = (r, s, tr)"

definition gate :: "world \<Rightarrow> string \<Rightarrow> state \<Rightarrow> unit result \<times> state \<times> event list" where
  "gate w b s =
     (case check_and_configure_api_creds w b s of
        (Return ok, s', tr) \<Rightarrow>
          if ok then after tr (account_result w b s' (inputs s'))
          else (Raise (SystemExit 1), s', tr)
      | (Raise e, s', tr) \<Rightarrow> (Raise e, s', tr)
      | (Diverge, s', tr) \<Rightarrow> (Diverge, s', tr))"

fun body_result :: "world \<Rightarrow> state \<Rightarrow> input_ev list \<Rightarrow> unit result \<times> state \<times> event list" where
  "body_result w s [] = (Raise EOFError, s, [Asked BaseUrl])"
| "body_result w s (CtrlC # rest) = (Raise KeyboardInterrupt, s\<lparr>inputs := rest\<rparr>, [Asked BaseUrl])"
| "body_result w s (Line e # rest) =
     after ([Asked BaseUrl, Entered BaseUrl e] @
            (if e = [] then [Log (UsingDefaultBaseUrl ''http://localhost:7171'')] else []))
       (gate w (used_base_url e) (s\<lparr>inputs := rest\<rparr>))"

text \<open>
  The effects each part of \<open>main\<close> can have.
\<close>

fun early_msg :: "msg \<Rightarrow> bool" where
  "early_msg (UsingDefaultBaseUrl u) = True"
| "early_msg CheckingServer = True"
| "early_msg AlreadyConfigured = True"
| "early_msg MissingApiCreds = True"
| "early_msg DashboardHint = True"
| "early_msg PleaseConfigure = True"
| "early_msg BothMustBeProvided = True"
| "early_msg ConfiguredOk = True"
| "early_msg (FailedToCommunicate u) = True"
| "early_msg (ResponseStatus n) = True"
| "early_msg (ResponseBodyJson j) = True"
| "early_msg (ResponseBodyText t) = True"
| "early_msg EnsureRunning = True"
| "early_msg m = False"

fun boot_event :: "event \<Rightarrow> bool" where
  "boot_event (Log m) = early_msg m"
| "boot_event (Asked p) = (p = ConfigureNow \<or> p = ClientId \<or> p = ClientSecret)"
| "boot_event (Entered p l) = (p = ConfigureNow \<or> p = ClientId \<or> p = ClientSecret)"
| "boot_event (Http m u b) = (m \<noteq> POST)"
| "boot_event e = False"

fun harmless :: "event \<Rightarrow> bool" where
  "harmless (Log m) = (early_msg m \<or> m = Cancelled)"
| "harmless (Asked p) = (p \<noteq> Overwrite \<and> p \<noteq> DeleteNow)"
| "harmless (Entered p l) =
     (p = BaseUrl \<or> p = ConfigureNow \<or> p = ClientId \<or> p = ClientSecret \<or>
      (p = AccountName \<and> l \<noteq> []))"
| "harmless (Http m u b) = (m \<noteq> POST)"
| "harmless e = False"

fun cred_msg :: "msg \<Rightarrow> bool" where
  "cred_msg RemovingExisting = True"
| "cred_msg CouldNotRemoveExisting = True"
| "cred_msg (DeviceAvailable d) = True"
| "cred_msg PleaseTransferPlayback = True"
| "cred_msg WillCapture = True"
| "cred_msg CredentialsCreated = True"
| "cred_msg (SessionCaptured u) = True"
| "cred_msg ShuttingDownServer = True"
| "cred_msg UsingExisting = True"
| "cred_msg m = False"

fun cred_event :: "event \<Rightarrow> bool" where
  "cred_event (Log m) = cred_msg m"
| "cred_event (Asked p) = (p = Overwrite)"
| "cred_event (Entered p l) = (p = Overwrite)"
| "cred_event (Http m u b) = False"
| "cred_event OpenCred = False"
| "cred_event e = True"

fun reg_msg :: "msg \<Rightarrow> bool" where
  "reg_msg FailedToObtain = True"
| "reg_msg CouldNotReadOrParse = True"
| "reg_msg (Registering n u) = True"
| "reg_msg RegisteredOk = True"
| "reg_msg (ResponseFromServer t) = True"
| "reg_msg FailedToCallApi = True"
| "reg_msg (ResponseStatus n) = True"
| "reg_msg (ResponseBodyText t) = True"
| "reg_msg CredentialsDeleted = True"
| "reg_msg ErrorDeleting = True"
| "reg_msg CredentialsNotDeleted = True"
| "reg_msg m = False"

fun reg_event :: "string \<Rightarrow> string \<Rightarrow> event \<Rightarrow> bool" where
  "reg_event url reg (Log m) = reg_msg m"
| "reg_event url reg (Asked p) = (p = DeleteNow)"
| "reg_event url reg (Entered p l) = (p = DeleteNow)"
| "reg_event url reg (Http m u b) =
     (m = POST \<and> u = url \<and> (\<exists>j. b = Some (registration_payload reg j)))"
| "reg_event url reg Unlink = True"
| "reg_event url reg OpenCred = True"
| "reg_event url reg e = False"

section \<open>Results, effects and their composition\<close>

lemma emits_return: "emits P (return a)"
  by (simp add: emits_def return_def events_def)

lemma emits_raise: "emits P (raise e)"
  by (simp add: emits_def raise_def events_def)

lemma emits_sys_exit: "emits P (sys_exit n)"
  by (simp add: sys_exit_def emits_raise)

lemma emits_diverge: "emits P diverge"
  by (simp add: emits_def diverge_def events_def)

lemma emits_emit: "P e \<Longrightarrow> emits P (emit e)"
  by (simp add: emits_def emit_def events_def)

lemma emits_log: "P (Log m) \<Longrightarrow> emits P (log m)"
  by (simp add: log_def emits_emit)

lemma emits_exists_cred: "emits P exists_cred"
  by (simp add: emits_def exists_cred_def events_def)

lemma emits_cred_ready: "emits P cred_ready"
  by (simp add: emits_def cred_ready_def events_def)

lemma emits_input: "P (Asked p) \<Longrightarrow> (\<And>l. P (Entered p l)) \<Longrightarrow> emits P (input p)"
  by (simp add: emits_def input_def events_def split: list.splits input_ev.splits)

lemma outcome_after [simp]: "outcome (after tr x) = outcome x"
  by (cases x) (simp add: outcome_def)

lemma final_after [simp]: "final (after tr x) = final x"
  by (cases x) (simp add: final_def)

lemma events_after [simp]: "events (after tr x) = tr @ events x"
  by (cases x) (simp add: events_def)

lemma after_proj [simp]:
  "fst (after tr x) = fst x"
  "fst (snd (after tr x)) = fst (snd x)"
  "snd (snd (after tr x)) = tr @ snd (snd x)"
  by (cases x; simp)+

lemma outcome_pbind:
  "outcome (pbind m f s) =
     (case outcome (m s) of
        Return a \<Rightarrow> outcome (f a (final (m s)))
      | Raise e \<Rightarrow> Raise e
      | Diverge \<Rightarrow> Diverge)"
  by (cases "m s") (simp add: pbind_def outcome_def final_def split: result.splits)

lemma final_pbind:
  "final (pbind m f s) =
     (case outcome (m s) of
        Return a \<Rightarrow> final (f a (final (m s)))
      | Raise e \<Rightarrow> final (m s)
      | Diverge \<Rightarrow> final (m s))"
  by (cases "m s") (simp add: pbind_def outcome_def final_def split: result.splits)

lemma events_pbind:
  "events (pbind m f s) =
     (case outcome (m s) of
        Return a \<Rightarrow> events (m s) @ events (f a (final (m s)))
      | Raise e \<Rightarrow> events (m s)
      | Diverge \<Rightarrow> events (m s))"
  by (cases "m s") (simp add: pbind_def outcome_def final_def events_def split: result.splits)

lemma outcome_try_except:
  "outcome (try_except m h s) =
     (case outcome (m s) of
        Raise e \<Rightarrow> outcome (h e (final (m s)))
      | Return a \<Rightarrow> Return a
      | Diverge \<Rightarrow> Diverge)"
  by (cases "m s") (simp add: try_except_def outcome_def final_def split: result.splits)

lemma final_try_except:
  "final (try_except m h s) =
     (case outcome (m s) of
        Raise e \<Rightarrow> final (h e (final (m s)))
      | Return a \<Rightarrow> final (m s)
      | Diverge \<Rightarrow> final (m s))"
  by (cases "m s") (simp add: try_except_def outcome_def final_def split: result.splits)

lemma events_try_except:
  "events (try_except m h s) =
     (case outcome (m s) of
        Raise e \<Rightarrow> events (m s) @ events (h e (final (m s)))
      | Return a \<Rightarrow> events (m s)
      | Diverge \<Rightarrow> events (m s))"
  by (cases "m s") (simp add: try_except_def outcome_def final_def events_def split: result.splits)

lemma outcome_try_finally:
  "outcome (try_finally m fin s) =
     (case outcome (m s) of
        Diverge \<Rightarrow> Diverge
      | r \<Rightarrow> (case outcome (fin (final (m s))) of
                Return u \<Rightarrow> r
              | Raise e \<Rightarrow> Raise e
              | Diverge \<Rightarrow> Diverge))"
  by (cases "m s"; cases "fin (final (m s))")
     (simp add: try_finally_def outcome_def final_def split: result.splits)

lemma final_try_finally:
  "final (try_finally m fin s) =
     (case outcome (m s) of
        Diverge \<Rightarrow> final (m s)
      | r \<Rightarrow> final (fin (final (m s))))"
  by (cases "m s"; cases "fin (final (m s))")
     (simp add: try_finally_def outcome_def final_def split: result.splits)

lemma events_try_finally:
  "events (try_finally m fin s) =
     (case outcome (m s) of
        Diverge \<Rightarrow> events (m s)
      | r \<Rightarrow> events (m s) @ events (fin (final (m s))))"
  by (cases "m s"; cases "fin (final (m s))")
     (simp add: try_finally_def outcome_def final_def events_def split: result.splits)

lemma emits_pbind: "emits P m \<Longrightarrow> (\<And>a. emits P (f a)) \<Longrightarrow> emits P (pbind m f)"
  by (simp add: emits_def events_pbind split: result.splits)

lemma emits_try_except: "emits P m \<Longrightarrow> (\<And>e. emits P (h e)) \<Longrightarrow> emits P (try_except m h)"
  by (simp add: emits_def events_try_except split: result.splits)

lemma emits_try_finally: "emits P m \<Longrightarrow> emits P fin \<Longrightarrow> emits P (try_finally m fin)"
  by (simp add: emits_def events_try_finally split: result.splits)

lemma emits_if: "(c \<Longrightarrow> emits P m) \<Longrightarrow> (\<not> c \<Longrightarrow> emits P m') \<Longrightarrow> emits P (if c then m else m')"
  by simp

lemma emits_request: "P (Http m url body) \<Longrightarrow> emits P (request w m url body)"
  by (simp add: request_def emits_pbind emits_emit emits_return emits_raise split: http_outcome.splits)

lemma emits_raise_for_status: "emits P (raise_for_status r)"
  by (simp add: raise_for_status_def emits_return emits_raise)

lemma emits_response_json: "emits P (response_json w r)"
  by (simp add: response_json_def emits_return emits_raise split: option.splits)

lemma emits_dict_get: "emits P (dict_get d k)"
  by (simp add: dict_get_def emits_return emits_raise split: json.splits)

lemma emits_unlink_cred: "P Unlink \<Longrightarrow> emits P (unlink_cred b)"
  by (simp add: emits_def unlink_cred_def pbind_def emit_def events_def)

lemma emits_load_cred: "P OpenCred \<Longrightarrow> emits P (load_cred w)"
  by (simp add: emits_def load_cred_def pbind_def emit_def events_def vanish_def
      split: option.splits)

lemma emits_sleep: "P Sleep \<Longrightarrow> emits P (sleep t)"
  by (simp add: emits_def sleep_def pbind_def emit_def events_def
      split: tick.splits)

lemmas emits_intros = emits_return emits_raise emits_sys_exit emits_diverge emits_emit emits_log
  emits_exists_cred emits_cred_ready emits_input emits_pbind emits_try_except emits_try_finally
  emits_request emits_raise_for_status emits_response_json emits_dict_get emits_unlink_cred
  emits_load_cred emits_sleep

section \<open>The bootstrap\<close>

lemmas prog_defs = pbind_def return_def raise_def diverge_def try_except_def try_finally_def
  emit_def log_def sys_exit_def input_def request_def raise_for_status_def response_json_def
  dict_get_def exists_cred_def unlink_cred_def load_cred_def is_os_error_def request_exception_def
  vanish_def

lemma api_error_eq:
  "api_error w url ro s = (Return False, s, failure_report w url ro)"
  by (simp add: api_error_def failure_report_def prog_defs split: option.splits)

lemmas report_splits = http_outcome.splits option.splits json.splits if_splits

lemma check_configured:
  "get_report w url = Configured \<Longrightarrow>
   check_api_creds w url s = (Return True, s, [Http GET url None, Log AlreadyConfigured])"
  by (simp add: get_report_def lookup_def split: report_splits)
     (simp_all add: check_api_creds_def prog_defs)

lemma check_not_a_dict:
  "get_report w url = NotADict \<Longrightarrow>
   check_api_creds w url s = (Raise AttributeError, s, [Http GET url None])"
  by (simp add: get_report_def lookup_def split: report_splits)
     (simp_all add: check_api_creds_def prog_defs)

lemma check_body_not_json:
  "get_report w url = BodyNotJson \<Longrightarrow>
   check_api_creds w url s = (Raise ResponseJSONDecodeError, s, [Http GET url None])"
  by (simp add: get_report_def lookup_def split: report_splits)
     (simp_all add: check_api_creds_def prog_defs)

lemma check_get_failed:
  "get_report w url = GetFailed ro \<Longrightarrow>
   check_api_creds w url s = (Raise (RequestException ro), s, [Http GET url None])"
  by (simp add: get_report_def lookup_def split: report_splits)
     (auto simp add: check_api_creds_def prog_defs)

lemma check_get_interrupted:
  "get_report w url = GetInterrupted \<Longrightarrow>
   check_api_creds w url s = (Raise KeyboardInterrupt, s, [Http GET url None])"
  by (simp add: get_report_def lookup_def split: report_splits)
     (simp_all add: check_api_creds_def prog_defs)

lemma after_after [simp]: "after tr (after tr' x) = after (tr @ tr') x"
  by (cases x) simp

lemma after_Nil [simp]: "after [] x = x"
  by (cases x) simp

lemma report_missingD:
  "get_report w url = Missing \<Longrightarrow>
   \<exists>r kvs. http w GET url None = Responds r \<and> \<not> (400 \<le> status_code r \<and> status_code r < 600) \<and>
     parse w (resp_text r) = Some (JObj kvs) \<and>
     \<not> (truthy (lookup kvs ''client_id'') \<and> truthy (lookup kvs ''client_secret''))"
  by (simp add: get_report_def split: report_splits)

lemma check_missing:
  assumes "get_report w url = Missing"
  shows "check_api_creds w url s =
     after [Http GET url None, Log MissingApiCreds, Log DashboardHint]
       (case inputs s of
          [] \<Rightarrow> (Raise EOFError, s, [Asked ConfigureNow])
        | CtrlC # rest \<Rightarrow> (Raise KeyboardInterrupt, s\<lparr>inputs := rest\<rparr>, [Asked ConfigureNow])
        | Line a # rest \<Rightarrow>
            if str_lower a \<noteq> ''y''
            then (Return False, s\<lparr>inputs := rest\<rparr>,
                  [Asked ConfigureNow, Entered ConfigureNow a, Log PleaseConfigure])
            else after [Asked ConfigureNow, Entered ConfigureNow a]
                   (configure_api_creds w url (s\<lparr>inputs := rest\<rparr>)))"
proof -
  from report_missingD [OF assms] obtain r kvs where
    r: "http w GET url None = Responds r" "\<not> (400 \<le> status_code r \<and> status_code r < 600)"
      "parse w (resp_text r) = Some (JObj kvs)"
      "\<not> (truthy (lookup kvs ''client_id'') \<and> truthy (lookup kvs ''client_secret''))"
    by blast
  show ?thesis
  proof (cases "inputs s")
    case Nil
    with r show ?thesis
      by (auto simp add: check_api_creds_def prog_defs Let_def lookup_def)
  next
    case (Cons i rest)
    with r show ?thesis
      by (cases i) (auto simp add: check_api_creds_def prog_defs Let_def lookup_def)
  qed
qed

lemma configure_guarded:
  "try_except (configure_api_creds w url) (handler w url) s = configure_result w url s (inputs s)"
proof (induction w url s "inputs s" rule: configure_result.induct)
  case (1 w url s)
  then show ?case
    by (simp add: configure_api_creds_def prog_defs handler_def flip: "1.hyps")
next
  case (2 w url s rest)
  then show ?case
    by (simp add: configure_api_creds_def prog_defs handler_def flip: "2.hyps")
next
  case (3 w url s cid)
  then show ?case 
    by (simp add: configure_api_creds_def prog_defs handler_def flip: "3.hyps")
next
  case (4 w url s cid rest)
  then show ?case 
    by (simp add: configure_api_creds_def prog_defs handler_def flip: "4.hyps")
next
  case (5 w url s cid csec rest)
  then show ?case 
    by (simp add: configure_api_creds_def prog_defs handler_def api_error_eq Let_def
        credentials_payload_def
        flip: "5.hyps" split: http_outcome.splits)
qed

lemma try_except_after:
  "m s = after tr (m' s') \<Longrightarrow> try_except m h s = after tr (try_except m' h s')"
  by (cases "m' s'" rule: prod_cases3; cases "fst (m' s')")
     (auto simp add: try_except_def split: result.splits prod.splits)

lemma check_guarded:
  "try_except (check_api_creds w url) (handler w url) s =
     after [Http GET url None]
      (case get_report w url of
         Configured \<Rightarrow> (Return True, s, [Log AlreadyConfigured])
       | Missing \<Rightarrow> after [Log MissingApiCreds, Log DashboardHint] (ask_result w url s (inputs s))
       | NotADict \<Rightarrow> (Raise AttributeError, s, [])
       | BodyNotJson \<Rightarrow> (Return False, s, failure_report w url None)
       | GetFailed ro \<Rightarrow> (Return False, s, failure_report w url ro)
       | GetInterrupted \<Rightarrow> (Raise KeyboardInterrupt, s, []))"
proof (cases "get_report w url")
  case Configured
  then show ?thesis
    by (simp add: check_configured try_except_def)
next
  case Missing
  show ?thesis
  proof (cases "inputs s")
    case Nil
    with Missing show ?thesis
      by (simp add: check_missing try_except_def handler_def request_exception_def raise_def)
  next
    case (Cons i rest)
    show ?thesis
    proof (cases i)
      case (Line a)
      show ?thesis
      proof (cases "str_lower a = ''y''")
        case True
        have "check_api_creds w url s =
            after [Http GET url None, Log MissingApiCreds, Log DashboardHint,
                   Asked ConfigureNow, Entered ConfigureNow a]
              (configure_api_creds w url (s\<lparr>inputs := rest\<rparr>))"
          using Missing Cons Line True by (simp add: check_missing)
        from try_except_after [where m = "check_api_creds w url" and h = "handler w url"
            and m' = "configure_api_creds w url" and s' = "s\<lparr>inputs := rest\<rparr>", OF this]
        show ?thesis
          using Missing Cons Line True by (simp add: configure_guarded)
      next
        case False
        with Missing Cons Line show ?thesis
          by (simp add: check_missing try_except_def)
      qed
    next
      case CtrlC
      with Missing Cons show ?thesis
        by (simp add: check_missing try_except_def handler_def request_exception_def raise_def)
    qed
  qed
next
  case NotADict
  then show ?thesis
    by (simp add: check_not_a_dict try_except_def handler_def request_exception_def raise_def)
next
  case BodyNotJson
  then show ?thesis
    by (simp add: check_body_not_json try_except_def handler_def request_exception_def api_error_eq)
next
  case (GetFailed ro)
  then show ?thesis
    by (simp add: check_get_failed try_except_def handler_def request_exception_def api_error_eq)
next
  case GetInterrupted
  then show ?thesis
    by (simp add: check_get_interrupted try_except_def handler_def request_exception_def raise_def)
qed

lemma boot_eq:
  "check_and_configure_api_creds w base_url s = boot_result w (api_config_url base_url) s"
proof -
  have "check_and_configure_api_creds w base_url s =
      after [Log CheckingServer]
        (try_except (check_api_creds w (api_config_url base_url))
           (handler w (api_config_url base_url)) s)"
    by (simp add: check_and_configure_api_creds_def api_config_url_def Let_def pbind_def log_def
        emit_def handler_def [abs_def])
  then show ?thesis
    by (simp add: check_guarded boot_result_def)
qed

lemma proj_tuple [simp]:
  "outcome (r, s, tr) = r" "final (r, s, tr) = s" "events (r, s, tr) = tr"
  by (simp_all add: outcome_def final_def events_def)





lemma boot_result_put:
  assumes "get_report w url = Missing"
    and "inputs s = Line a # Line cid # Line csec # rest"
    and "str_lower a = ''y''" and "cid \<noteq> []" and "csec \<noteq> []"
  shows "boot_result w url s =
    after [Log CheckingServer, Http GET url None, Log MissingApiCreds, Log DashboardHint,
           Asked ConfigureNow, Entered ConfigureNow a,
           Asked ClientId, Entered ClientId cid, Asked ClientSecret, Entered ClientSecret csec,
           Http PUT url (Some (credentials_payload cid csec))]
      (case http w PUT url (Some (credentials_payload cid csec)) of
         Interrupted \<Rightarrow> (Raise KeyboardInterrupt, s\<lparr>inputs := rest\<rparr>, [])
       | Responds r \<Rightarrow>
           if 400 \<le> status_code r \<and> status_code r < 600
           then (Return False, s\<lparr>inputs := rest\<rparr>, failure_report w url (Some r))
           else (Return True, s\<lparr>inputs := rest\<rparr>, [Log ConfiguredOk])
       | Fails ro \<Rightarrow> (Return False, s\<lparr>inputs := rest\<rparr>, failure_report w url ro))"
  using assms by (simp add: boot_result_def split: http_outcome.splits)

lemma is_put_failure_report [simp]: "filter is_put (failure_report w url ro) = []"
  by (simp add: failure_report_def split: option.splits)


lemmas model_defs =
  run_def main_def main_base_url_def main_account_def main_credentials_def main_register_def
  main_post_def main_cleanup_def check_and_configure_api_creds_def check_api_creds_def
  configure_api_creds_def api_error_def get_spotify_session_and_wait_for_credentials_def
  sleep_def cred_ready_def session_captured_def
  str_lower_def str_upper_def lower_char_def upper_char_def lower_letters_def upper_letters_def
  is_ascii_def open_fails_def
  rstrip_slash_def Let_def

lemmas example_defs =
  example_world_def example_parse_def status_def api_config_url_def credentials_payload_def
  failure_report_def request_failure_def



lemma configure_result_outcome:
  "outcome (configure_result w url s ins) \<in>
     {Return True, Return False, Raise EOFError, Raise KeyboardInterrupt}"
  by (cases "(w, url, s, ins)" rule: configure_result.cases)
     (auto split: http_outcome.splits)

lemma ask_result_outcome:
  "outcome (ask_result w url s ins) \<in>
     {Return True, Return False, Raise EOFError, Raise KeyboardInterrupt}"
  using configure_result_outcome
  by (cases "(w, url, s, ins)" rule: ask_result.cases) auto

lemma boot_result_outcome:
  "outcome (boot_result w url s) \<in>
     {Return True, Return False, Raise EOFError, Raise KeyboardInterrupt, Raise AttributeError}"
  using ask_result_outcome [of w url s "inputs s"]
  by (cases "get_report w url") (auto simp add: boot_result_def)

lemma configure_result_put:
  assumes "Http PUT u body \<in> set (events (configure_result w url s ins))"
  shows "\<exists>cid csec rest. ins = Line cid # Line csec # rest \<and> cid \<noteq> [] \<and> csec \<noteq> [] \<and>
           u = url \<and> body = Some (credentials_payload cid csec)"
  using assms
  by (cases "(w, url, s, ins)" rule: configure_result.cases)
     (auto simp add: failure_report_def split: http_outcome.splits option.splits if_splits)

lemma ask_result_put:
  assumes "Http PUT u body \<in> set (events (ask_result w url s ins))"
  shows "\<exists>a cid csec rest. ins = Line a # Line cid # Line csec # rest \<and> str_lower a = ''y'' \<and>
           cid \<noteq> [] \<and> csec \<noteq> [] \<and> u = url \<and> body = Some (credentials_payload cid csec)"
  using assms
  by (cases "(w, url, s, ins)" rule: ask_result.cases)
     (auto dest: configure_result_put split: if_splits)

lemma boot_result_put_issued:
  assumes "Http PUT u body \<in> set (events (boot_result w url s))"
  shows "\<exists>a cid csec rest. get_report w url = Missing \<and>
           inputs s = Line a # Line cid # Line csec # rest \<and> str_lower a = ''y'' \<and>
           cid \<noteq> [] \<and> csec \<noteq> [] \<and> u = url \<and> body = Some (credentials_payload cid csec)"
  using assms
  by (cases "get_report w url")
     (auto simp add: boot_result_def failure_report_def dest: ask_result_put split: option.splits)

lemma report_failed:
  "request_failure (http w GET url None) = Some ro \<Longrightarrow> get_report w url = GetFailed ro"
  by (auto simp add: request_failure_def get_report_def split: http_outcome.splits if_splits)

text \<open>
  Claim C2. When the GET of the configuration resource succeeds and its JSON body is an
  object with truthy \<open>client_id\<close> and \<open>client_secret\<close>, the bootstrap returns success at
  once: the state is unchanged, so no input is read, and its only effects are the two log
  lines and the GET, so no PUT is issued.
\<close>

theorem bootstrap_already_configured:
  assumes "http w GET (api_config_url base_url) None = Responds r"
    and "\<not> (400 \<le> status_code r \<and> status_code r < 600)"
    and "parse w (resp_text r) = Some (JObj kvs)"
    and "map_of kvs ''client_id'' = Some cid" and "truthy cid"
    and "map_of kvs ''client_secret'' = Some csec" and "truthy csec"
  shows "check_and_configure_api_creds w base_url s =
     (Return True, s,
      [Log CheckingServer, Http GET (api_config_url base_url) None, Log AlreadyConfigured])"
proof -
  from assms have "get_report w (api_config_url base_url) = Configured"
    by (simp add: get_report_def lookup_def)
  then show ?thesis
    by (simp add: boot_eq boot_result_def)
qed

text \<open>A server that reports both fields.\<close>

theorem bootstrap_already_configured_witness:
  "check_and_configure_api_creds
     (example_world (status 200 ''configured'') Interrupted Interrupted) ''host:7171''
     \<lparr>inputs = [Line ''me''], cred = None\<rparr> =
   (Return True, \<lparr>inputs = [Line ''me''], cred = None\<rparr>,
    [Log CheckingServer, Http GET ''host:7171/api/credentials/spotify_api_config'' None,
     Log AlreadyConfigured])"
proof -
  let ?w = "example_world (status 200 ''configured'') Interrupted Interrupted"
  let ?r = "\<lparr>status_code = 200, resp_text = ''configured''\<rparr>"
  have h: "http ?w GET (api_config_url ''host:7171'') None = Responds ?r"
    "\<not> (400 \<le> status_code ?r \<and> status_code ?r < 600)"
    "parse ?w (resp_text ?r) =
       Some (JObj [(''client_id'', JStr ''id''), (''client_secret'', JStr ''secret'')])"
    "map_of [(''client_id'', JStr ''id''), (''client_secret'', JStr ''secret'')] ''client_id'' =
       Some (JStr ''id'')"
    "truthy (JStr ''id'')"
    "map_of [(''client_id'', JStr ''id''), (''client_secret'', JStr ''secret'')] ''client_secret'' =
       Some (JStr ''secret'')"
    "truthy (JStr ''secret'')"
    by (simp_all add: example_defs)
  from bootstrap_already_configured [OF h] show ?thesis
    by (simp add: example_defs rstrip_slash_def)
qed

text \<open>
  The failures the bootstrap catches. No \<open>RequestException\<close> leaves it. When the GET
  raises one, or is answered with a status for which \<open>raise_for_status\<close> raises (400 to 599),
  the bootstrap returns failure, having read no input, and logs the failure, then the status
  and the body of the response when there is one (the body as JSON when it parses, as text
  otherwise). When a PUT is issued and raises or is answered with such a status, the
  bootstrap returns failure and ends with the same report.
\<close>

theorem bootstrap_failures_caught:
  "outcome (check_and_configure_api_creds w base_url s) \<noteq> Raise (RequestException ro') \<and>
   outcome (check_and_configure_api_creds w base_url s) \<noteq> Raise ResponseJSONDecodeError \<and>
   (request_failure (http w GET (api_config_url base_url) None) = Some ro \<longrightarrow>
      check_and_configure_api_creds w base_url s =
        (Return False, s,
         [Log CheckingServer, Http GET (api_config_url base_url) None] @
         failure_report w (api_config_url base_url) ro)) \<and>
   (Http PUT u body \<in> set (events (check_and_configure_api_creds w base_url s)) \<and>
    request_failure (http w PUT u body) = Some ro \<longrightarrow>
      outcome (check_and_configure_api_creds w base_url s) = Return False \<and>
      suffix (failure_report w u ro) (events (check_and_configure_api_creds w base_url s)))"
proof (intro conjI impI)
  show "outcome (check_and_configure_api_creds w base_url s) \<noteq> Raise (RequestException ro')"
    and "outcome (check_and_configure_api_creds w base_url s) \<noteq> Raise ResponseJSONDecodeError"
    using boot_result_outcome [of w "api_config_url base_url" s] by (auto simp add: boot_eq)
next
  assume "request_failure (http w GET (api_config_url base_url) None) = Some ro"
  then show "check_and_configure_api_creds w base_url s =
        (Return False, s,
         [Log CheckingServer, Http GET (api_config_url base_url) None] @
         failure_report w (api_config_url base_url) ro)"
    by (simp add: boot_eq boot_result_def report_failed)
next
  assume a: "Http PUT u body \<in> set (events (check_and_configure_api_creds w base_url s)) \<and>
    request_failure (http w PUT u body) = Some ro"
  then obtain a' cid csec rest where
    p: "get_report w (api_config_url base_url) = Missing"
      "inputs s = Line a' # Line cid # Line csec # rest" "str_lower a' = ''y''"
      "cid \<noteq> []" "csec \<noteq> []"
      "u = api_config_url base_url" "body = Some (credentials_payload cid csec)"
    unfolding boot_eq by (blast dest: boot_result_put_issued)
  from a p show "outcome (check_and_configure_api_creds w base_url s) = Return False"
    unfolding boot_eq boot_result_put [OF p(1-5)]
    by (auto simp add: request_failure_def split: http_outcome.splits if_splits)
  from a p show "suffix (failure_report w u ro) (events (check_and_configure_api_creds w base_url s))"
    unfolding boot_eq boot_result_put [OF p(1-5)]
    by (auto simp add: request_failure_def suffix_def split: http_outcome.splits if_splits)
qed

text \<open>A GET answered with status 404 and a JSON body.\<close>

theorem bootstrap_failures_caught_witness:
  "check_and_configure_api_creds
     (example_world (status 404 ''{}'') Interrupted Interrupted) ''http://host''
     \<lparr>inputs = [], cred = None\<rparr> =
   (Return False, \<lparr>inputs = [], cred = None\<rparr>,
    [Log CheckingServer, Http GET ''http://host/api/credentials/spotify_api_config'' None,
     Log (FailedToCommunicate ''http://host/api/credentials/spotify_api_config''),
     Log (ResponseStatus 404), Log (ResponseBodyJson (JObj [])), Log EnsureRunning])"
proof -
  let ?w = "example_world (status 404 ''{}'') Interrupted Interrupted"
  let ?r = "\<lparr>status_code = 404, resp_text = ''{}''\<rparr>"
  have h: "request_failure (http ?w GET (api_config_url ''http://host'') None) = Some (Some ?r)"
    by (simp add: example_defs)
  from bootstrap_failures_caught [of ?w "''http://host''" "\<lparr>inputs = [], cred = None\<rparr>"
      None "Some ?r" "[]" None] h
  show ?thesis
    by (simp add: example_defs rstrip_slash_def)
qed

text \<open>
  Claim C6. Every HTTP failure of the bootstrap, a GET answered with a status of 400 or more
  among them, is to be caught, logged with the status and the body, and turned into a
  failure result. The code tests \<open>status_code >= 400\<close> and then leaves the decision to
  \<open>raise_for_status\<close>, which raises for 400 to 599 only. A GET answered with status 600 and
  a body that reports both fields is therefore taken as a success: the bootstrap returns
  \<open>True\<close> and logs no failure, no status and no body.
\<close>

theorem bootstrap_status_600:
  "check_and_configure_api_creds
     (example_world (status 600 ''configured'') Interrupted Interrupted) ''http://host''
     \<lparr>inputs = [], cred = None\<rparr> =
   (Return True, \<lparr>inputs = [], cred = None\<rparr>,
    [Log CheckingServer, Http GET ''http://host/api/credentials/spotify_api_config'' None,
     Log AlreadyConfigured]) \<and>
   http (example_world (status 600 ''configured'') Interrupted Interrupted) GET
     ''http://host/api/credentials/spotify_api_config'' None =
     Responds \<lparr>status_code = 600, resp_text = ''configured''\<rparr> \<and>
   (400::int) \<le> 600"
  by (simp add: model_defs example_defs prog_defs)

section \<open>The capture phase\<close>

lemma session_captured_emits: "emits capture_event (session_captured w)"
  by (cases "session_username w")
     (auto simp add: session_captured_def capture_event_def intro!: emits_intros)

lemma wait_loop_emits: "emits capture_event (wait_loop w ts)"
proof (induction ts)
  case Nil
  show ?case
    unfolding wait_loop.simps
    by (intro emits_intros emits_if session_captured_emits) (simp add: capture_event_def)
next
  case (Cons t ts)
  then show ?case
    unfolding wait_loop.simps
    by (intro emits_intros emits_if session_captured_emits) (simp_all add: capture_event_def)
qed

lemma outcome_sleep:
  "outcome (sleep t s) = (if t = Interrupt then Raise KeyboardInterrupt else Return ())"
  by (simp add: sleep_def pbind_def emit_def split: tick.splits)

lemma final_sleep:
  "final (sleep t s) = (case t of Captured c \<Rightarrow> s\<lparr>cred := Some c\<rparr> | _ \<Rightarrow> s)"
  by (simp add: sleep_def pbind_def emit_def split: tick.splits)

lemma outcome_session_captured [simp]: "outcome (session_captured w s) = Return ()"
  by (simp add: session_captured_def pbind_def log_def emit_def return_def split: option.splits)

lemma outcome_cred_ready:
  "outcome (cred_ready s) = Return (case cred s of None \<Rightarrow> False | Some c \<Rightarrow> c \<noteq> [])"
  by (simp add: cred_ready_def)

lemma final_cred_ready [simp]: "final (cred_ready s) = s"
  by (simp add: cred_ready_def)

lemma wait_loop_outcome:
  "outcome (wait_loop w ts s) \<in> {Return (), Raise KeyboardInterrupt, Diverge}"
  by (induction ts arbitrary: s)
     (simp_all add: outcome_pbind outcome_sleep outcome_cred_ready diverge_def
        split: result.splits)

lemma wait_loop_ends:
  assumes "Interrupt \<in> set ts \<or> (\<exists>c. c \<noteq> [] \<and> Captured c \<in> set ts)"
  shows "outcome (wait_loop w ts s) \<noteq> Diverge"
  using assms
proof (induction ts arbitrary: s)
  case Nil
  then show ?case by simp
next
  case (Cons t ts)
  show ?case
  proof (cases t)
    case Idle
    with Cons show ?thesis
      by (auto simp add: outcome_pbind outcome_sleep outcome_cred_ready final_sleep)
  next
    case (Captured c)
    with Cons show ?thesis
      by (auto simp add: outcome_pbind outcome_sleep outcome_cred_ready final_sleep)
  next
    case Interrupt
    then show ?thesis
      by (simp add: outcome_pbind outcome_sleep)
  qed
qed

lemma waiting_outcome [simp]: "outcome (waiting w s) = outcome (wait_loop w (ticks w) s)"
  by (simp add: waiting_def outcome_try_finally outcome_pbind log_def emit_def split: result.splits)

lemma waiting_events:
  "events (waiting w s) =
     events (wait_loop w (ticks w) s) @
     (if outcome (wait_loop w (ticks w) s) = Diverge then [] else [Log ShuttingDownServer, ZsClose])"
  by (simp add: waiting_def events_try_finally events_pbind outcome_pbind log_def emit_def
      split: result.splits)

lemma capture_eq:
  "get_spotify_session_and_wait_for_credentials w s =
     (if cred s = None then after (capture_intro w) (waiting w s)
      else if stale_unlink_fails w
        then (Raise (SystemExit 1), s, [Log RemovingExisting, Unlink, Log CouldNotRemoveExisting])
      else after ([Log RemovingExisting, Unlink] @ capture_intro w) (waiting w (s\<lparr>cred := None\<rparr>)))"
  unfolding get_spotify_session_and_wait_for_credentials_def Let_def waiting_def [symmetric]
  by (cases "waiting w s" rule: prod_cases3; cases "waiting w (s\<lparr>cred := None\<rparr>)" rule: prod_cases3)
     (simp add: capture_intro_def pbind_def exists_cred_def log_def emit_def return_def
      try_except_def unlink_cred_def is_os_error_def sys_exit_def raise_def)

lemma wait_loop_events:
  "e \<in> set (events (wait_loop w ts s)) \<Longrightarrow> capture_event e"
  using wait_loop_emits [of w ts] by (simp add: emits_def list_all_iff)

lemma wait_loop_count [simp]:
  "count_list (events (wait_loop w ts s)) ZsCreate = 0"
  "count_list (events (wait_loop w ts s)) ZsClose = 0"
  using wait_loop_events [of ZsCreate w ts s] wait_loop_events [of ZsClose w ts s]
  by (auto simp add: count_list_0_iff capture_event_def)

text \<open>
  Claim C9. Whenever the capture phase has started the responder and ends, by detecting the
  credential file or by an interrupt during the wait loop, it has stopped the responder:
  the responder is created once, closed once, and the close is the last effect of the phase.
  When the responder was never started (the stale file could not be removed) nothing is
  closed and the phase exits with status 1. The phase does end as soon as the user
  interrupts the wait or the capture library writes a non-empty file.
\<close>

theorem capture_stops_responder:
  "(ZsCreate \<in> set (events (get_spotify_session_and_wait_for_credentials w s)) \<and>
    outcome (get_spotify_session_and_wait_for_credentials w s) \<noteq> Diverge \<longrightarrow>
      count_list (events (get_spotify_session_and_wait_for_credentials w s)) ZsCreate = 1 \<and>
      count_list (events (get_spotify_session_and_wait_for_credentials w s)) ZsClose = 1 \<and>
      last (events (get_spotify_session_and_wait_for_credentials w s)) = ZsClose) \<and>
   (ZsCreate \<notin> set (events (get_spotify_session_and_wait_for_credentials w s)) \<longrightarrow>
      ZsClose \<notin> set (events (get_spotify_session_and_wait_for_credentials w s)) \<and>
      outcome (get_spotify_session_and_wait_for_credentials w s) = Raise (SystemExit 1)) \<and>
   (Interrupt \<in> set (ticks w) \<or> (\<exists>c. c \<noteq> [] \<and> Captured c \<in> set (ticks w)) \<longrightarrow>
      outcome (get_spotify_session_and_wait_for_credentials w s) \<noteq> Diverge)"
  using wait_loop_ends [of "ticks w" w s] wait_loop_ends [of "ticks w" w "s\<lparr>cred := None\<rparr>"]
  by (simp add: capture_eq capture_intro_def waiting_events)

text \<open>A stale file is removed, the responder starts, and the user interrupts the wait.\<close>

theorem capture_stops_responder_witness:
  "outcome (get_spotify_session_and_wait_for_credentials
      ((example_world Interrupted Interrupted Interrupted)\<lparr>ticks := [Idle, Interrupt]\<rparr>)
      \<lparr>inputs = [], cred = Some ''old''\<rparr>) = Raise KeyboardInterrupt \<and>
   count_list (events (get_spotify_session_and_wait_for_credentials
      ((example_world Interrupted Interrupted Interrupted)\<lparr>ticks := [Idle, Interrupt]\<rparr>)
      \<lparr>inputs = [], cred = Some ''old''\<rparr>)) ZsClose = 1 \<and>
   last (events (get_spotify_session_and_wait_for_credentials
      ((example_world Interrupted Interrupted Interrupted)\<lparr>ticks := [Idle, Interrupt]\<rparr>)
      \<lparr>inputs = [], cred = Some ''old''\<rparr>)) = ZsClose"
proof -
  let ?w = "(example_world Interrupted Interrupted Interrupted)\<lparr>ticks := [Idle, Interrupt]\<rparr>"
  let ?s = "\<lparr>inputs = [], cred = Some ''old''\<rparr>"
  have ev: "get_spotify_session_and_wait_for_credentials ?w ?s =
      (Raise KeyboardInterrupt, \<lparr>inputs = [], cred = None\<rparr>,
       [Log RemovingExisting, Unlink, ZsCreate, Log (DeviceAvailable ''librespot-spotizerr''),
        Log PleaseTransferPlayback, Log WillCapture, Sleep, Sleep,
        Log ShuttingDownServer, ZsClose])"
    by (simp add: model_defs example_defs prog_defs)
  have h: "ZsCreate \<in> set (events (get_spotify_session_and_wait_for_credentials ?w ?s)) \<and>
      outcome (get_spotify_session_and_wait_for_credentials ?w ?s) \<noteq> Diverge"
    by (simp add: ev)
  from capture_stops_responder [of ?w ?s] h
  have "count_list (events (get_spotify_session_and_wait_for_credentials ?w ?s)) ZsClose = 1 \<and>
      last (events (get_spotify_session_and_wait_for_credentials ?w ?s)) = ZsClose"
    by blast
  then show ?thesis by (simp add: ev)
qed

section \<open>The shape of a run\<close>

lemma main_post_eq: "main_post w url payload s = post_result w url payload s"
  by (simp add: main_post_def post_result_def prog_defs split: http_outcome.splits option.splits)

lemma main_cleanup_eq: "main_cleanup w s = cleanup_result w s (inputs s)"
proof (induction w s "inputs s" rule: cleanup_result.induct)
  case (1 w s)
  then show ?case
    by (simp add: main_cleanup_def prog_defs flip: "1.hyps")
next
  case (2 w s rest)
  then show ?case
    by (simp add: main_cleanup_def prog_defs flip: "2.hyps")
next
  case (3 w s a rest)
  then show ?case
    by (simp add: main_cleanup_def prog_defs Let_def flip: "3.hyps")
qed

lemma post_result_final [simp]: "final (post_result w url payload s) = s"
  by (simp add: post_result_def split: http_outcome.splits)

lemma post_result_outcome:
  "outcome (post_result w url payload s) \<in> {Return (), Raise (SystemExit 1), Raise KeyboardInterrupt}"
  by (simp add: post_result_def split: http_outcome.splits)


lemma post_and_cleanup_events:
  "events (post_and_cleanup w url payload s) =
     events (post_result w url payload s) @ events (cleanup_result w s (inputs s))"
  using post_result_outcome [of w url payload s]
  by (auto simp add: post_and_cleanup_def events_pbind events_try_finally outcome_try_finally
      main_post_eq main_cleanup_eq sys_exit_def raise_def split: result.splits)


lemma register_eq:
  "main_register w b n reg s =
     (if file_fault w = GoneBeforeCheck
      then (Raise (SystemExit 1), s\<lparr>cred := None\<rparr>, [Log FailedToObtain])
      else case cred s of
        None \<Rightarrow> (Raise (SystemExit 1), s, [Log FailedToObtain])
      | Some c \<Rightarrow>
          after [OpenCred]
           (if file_fault w = GoneBeforeOpen
            then (Raise (SystemExit 1), s\<lparr>cred := None\<rparr>, [Log CouldNotReadOrParse])
            else if file_fault w = Denied then (Raise OSError, s, [])
            else case parse w c of
              None \<Rightarrow>
                if undecodable w c then (Raise UnicodeDecodeError, s, [])
                else (Raise (SystemExit 1), s, [Log CouldNotReadOrParse])
            | Some j \<Rightarrow>
                after [Log (Registering n (api_url b n))]
                  (post_and_cleanup w (api_url b n) (registration_payload reg j) s)))"
  unfolding main_register_def Let_def post_and_cleanup_def [symmetric] api_url_def [symmetric]
    registration_payload_def [symmetric]
  by (cases "post_and_cleanup w (api_url b n) (registration_payload reg (the (parse w (the (cred s))))) s"
        rule: prod_cases3)
     (auto simp add: prog_defs split: option.splits)

lemma str_upper_Nil [simp]: "str_upper w r = [] \<longleftrightarrow> r = []"
  by (auto simp add: str_upper_def split: list.splits)

lemma main_account_eq: "main_account w b s = account_result w b s (inputs s)"
proof (cases "inputs s")
  case Nil
  then show ?thesis
    by (simp add: main_account_def prog_defs)
next
  case (Cons i rest)
  show ?thesis
  proof (cases i)
    case CtrlC
    with Cons show ?thesis
      by (simp add: main_account_def prog_defs)
  next
    case (Line n)
    show ?thesis
    proof (cases "n = []")
      case True
      with Cons Line show ?thesis
        by (simp add: main_account_def prog_defs)
    next
      case False
      show ?thesis
      proof (cases rest)
        case Nil
        with Cons Line False show ?thesis
          by (simp add: main_account_def prog_defs)
      next
        case (Cons i' rest')
        note c2 = this
        show ?thesis
        proof (cases i')
          case CtrlC
          with \<open>inputs s = i # rest\<close> c2 Line False show ?thesis
            by (simp add: main_account_def prog_defs)
        next
          case (Line r)
          with \<open>inputs s = i # rest\<close> c2 \<open>i = Line n\<close> False show ?thesis
            unfolding main_account_def Let_def finish_def [symmetric]
            by (cases "finish w b n (str_upper w r) (s\<lparr>inputs := rest'\<rparr>)" rule: prod_cases3)
               (simp add: prog_defs)
        qed
      qed
    qed
  qed
qed

lemma main_base_url_eq:
  "main_base_url s =
     (case inputs s of
        [] \<Rightarrow> (Raise EOFError, s, [Asked BaseUrl])
      | CtrlC # rest \<Rightarrow> (Raise KeyboardInterrupt, s\<lparr>inputs := rest\<rparr>, [Asked BaseUrl])
      | Line e # rest \<Rightarrow>
          (Return (used_base_url e), s\<lparr>inputs := rest\<rparr>,
           [Asked BaseUrl, Entered BaseUrl e] @
           (if e = [] then [Log (UsingDefaultBaseUrl ''http://localhost:7171'')] else [])))"
  by (simp add: main_base_url_def used_base_url_def prog_defs Let_def
      split: list.splits input_ev.splits)

lemma main_eq: "main w s = on_interrupt (body_result w s (inputs s))"
proof -
  have gate: "pbind (check_and_configure_api_creds w b) (\<lambda>ok.
        pbind (if \<not> ok then sys_exit 1 else return ()) (\<lambda>_. main_account w b)) t = gate w b t"
    for b t
    by (cases "check_and_configure_api_creds w b t" rule: prod_cases3)
       (auto simp add: gate_def pbind_def sys_exit_def raise_def return_def main_account_eq
         split: result.splits)
  have body: "pbind main_base_url (\<lambda>base_url.
        pbind (check_and_configure_api_creds w base_url) (\<lambda>ok.
        pbind (if \<not> ok then sys_exit 1 else return ()) (\<lambda>_. main_account w base_url))) s =
      body_result w s (inputs s)"
  proof -
    have fn: "(\<lambda>base_url. pbind (check_and_configure_api_creds w base_url) (\<lambda>ok.
        pbind (if \<not> ok then sys_exit 1 else return ()) (\<lambda>_. main_account w base_url))) = gate w"
      by (intro ext) (rule gate)
    show ?thesis
      unfolding fn
      by (cases "(w, s, inputs s)" rule: body_result.cases)
         (simp_all add: pbind_def main_base_url_eq)
  qed
  have "main w s = on_interrupt (pbind main_base_url (\<lambda>base_url.
        pbind (check_and_configure_api_creds w base_url) (\<lambda>ok.
        pbind (if \<not> ok then sys_exit 1 else return ()) (\<lambda>_. main_account w base_url))) s)"
    unfolding main_def
    apply (cases "pbind main_base_url (\<lambda>base_url.
        pbind (check_and_configure_api_creds w base_url) (\<lambda>ok.
        pbind (if \<not> ok then sys_exit 1 else return ()) (\<lambda>_. main_account w base_url))) s"
        rule: prod_cases3)
    subgoal for r s' tr
      by (cases r) (simp_all add: try_except_def pbind_def log_def emit_def sys_exit_def raise_def)
    done
  then show ?thesis
    by (simp add: body)
qed

lemma boot_harmless: "boot_event e \<Longrightarrow> harmless e"
  by (cases e) auto

lemma list_all_boot_harmless: "list_all boot_event tr \<Longrightarrow> list_all harmless tr"
  by (auto simp add: list_all_iff boot_harmless)

lemma failure_report_boot [simp]: "list_all boot_event (failure_report w url ro)"
  by (simp add: failure_report_def split: option.splits)

lemma configure_result_boot:
  "list_all boot_event (events (configure_result w url s ins)) \<and>
   cred (final (configure_result w url s ins)) = cred s"
  by (cases "(w, url, s, ins)" rule: configure_result.cases)
     (auto split: http_outcome.splits)

lemma ask_result_boot:
  "list_all boot_event (events (ask_result w url s ins)) \<and>
   cred (final (ask_result w url s ins)) = cred s"
  using configure_result_boot
  by (cases "(w, url, s, ins)" rule: ask_result.cases) auto

lemma boot_result_boot:
  "list_all boot_event (events (boot_result w url s)) \<and>
   cred (final (boot_result w url s)) = cred s"
  using ask_result_boot [of w url s "inputs s"]
  by (cases "get_report w url") (auto simp add: boot_result_def)

lemma check_boot:
  assumes "check_and_configure_api_creds w b s = (r, s', tr)"
  shows "list_all boot_event tr" and "cred s' = cred s"
  using boot_result_boot [of w "api_config_url b" s] assms
  by (simp_all add: boot_eq)

lemma on_interrupt_after [simp]: "on_interrupt (after tr x) = after tr (on_interrupt x)"
  by (cases x rule: on_interrupt.cases) auto

lemma main_shape [case_names aborted empty_name empty_region finish]:
  obtains
    (aborted) "list_all harmless (events (main w s))"
  | (empty_name) pre where
      "events (main w s) = pre @ [Asked AccountName, Entered AccountName [], Log AccountNameEmpty]"
      "list_all harmless pre" "outcome (main w s) = Raise (SystemExit 1)"
  | (empty_region) pre where
      "events (main w s) = pre @ [Asked Region, Entered Region [], Log RegionEmpty]"
      "list_all harmless pre" "outcome (main w s) = Raise (SystemExit 1)"
  | (finish) e n r s' pre where
      "n \<noteq> []" "r \<noteq> []" "cred s' = cred s" "list_all boot_event pre"
      "events (main w s) =
         [Asked BaseUrl, Entered BaseUrl e] @ pre @
         [Asked AccountName, Entered AccountName n, Asked Region, Entered Region r] @
         events (on_interrupt (finish w (used_base_url e) n (str_upper w r) s'))"
      "outcome (main w s) = outcome (on_interrupt (finish w (used_base_url e) n (str_upper w r) s'))"
proof -
  have nil: "inputs s = [] \<Longrightarrow> list_all harmless (events (main w s))"
    by (simp add: main_eq)
  have ctrl: "inputs s = CtrlC # rest \<Longrightarrow> list_all harmless (events (main w s))" for rest
    by (simp add: main_eq)
  {
    fix e rest
    assume ins: "inputs s = Line e # rest"
    obtain r1 s1 tr1 where
      chk: "check_and_configure_api_creds w (used_base_url e) (s\<lparr>inputs := rest\<rparr>) = (r1, s1, tr1)"
      by (rule prod_cases3)
    from check_boot [OF chk] have tr1: "list_all boot_event tr1" and s1: "cred s1 = cred s"
      by simp_all
    note h1 = list_all_boot_harmless [OF tr1]
    let ?pre = "(if e = [] then [Log (UsingDefaultBaseUrl ''http://localhost:7171'')] else []) @ tr1"
    have pre: "list_all boot_event ?pre"
      using tr1 by simp
    have m: "main w s =
        after ([Asked BaseUrl, Entered BaseUrl e] @
               (if e = [] then [Log (UsingDefaultBaseUrl ''http://localhost:7171'')] else []))
          (on_interrupt (gate w (used_base_url e) (s\<lparr>inputs := rest\<rparr>)))"
      using ins by (simp add: main_eq)
    have stop: "r1 \<noteq> Return True \<Longrightarrow> list_all harmless (events (main w s))"
      using chk m h1 by (cases r1) (auto simp add: gate_def)
    {
      assume "r1 = Return True"
      with chk m have m2: "main w s =
          after ([Asked BaseUrl, Entered BaseUrl e] @ ?pre)
            (on_interrupt (account_result w (used_base_url e) s1 (inputs s1)))"
        by (simp add: gate_def)
      have ?thesis
      proof (cases "inputs s1")
        case Nil
        with m2 h1 have "list_all harmless (events (main w s))"
          by simp
        then show ?thesis by (rule aborted)
      next
        case (Cons i rest2)
        note c1 = this
        show ?thesis
        proof (cases i)
          case CtrlC
          with c1 m2 h1 have "list_all harmless (events (main w s))"
            by simp
          then show ?thesis by (rule aborted)
        next
          case (Line n)
          note l1 = this
          show ?thesis
          proof (cases "n = []")
            case True
            with c1 l1 m2 h1 show ?thesis
              by (intro empty_name [of "[Asked BaseUrl, Entered BaseUrl e] @ ?pre"]) simp_all
          next
            case False
            note n = this
            show ?thesis
            proof (cases rest2)
              case Nil
              with c1 l1 n m2 h1 have "list_all harmless (events (main w s))"
                by simp
              then show ?thesis by (rule aborted)
            next
              case (Cons i' rest3)
              note c2 = this
              show ?thesis
              proof (cases i')
                case CtrlC
                with c1 c2 l1 n m2 h1 have "list_all harmless (events (main w s))"
                  by simp
                then show ?thesis by (rule aborted)
              next
                case (Line r)
                show ?thesis
                proof (cases "r = []")
                  case True
                  with Line c1 c2 l1 n m2 h1 show ?thesis
                    by (intro empty_region [of "[Asked BaseUrl, Entered BaseUrl e] @ ?pre @
                          [Asked AccountName, Entered AccountName n]"]) simp_all
                next
                  case False
                  with Line c1 c2 l1 n m2 s1 pre show ?thesis
                    by (intro finish [of n r "s1\<lparr>inputs := rest3\<rparr>" ?pre e]) simp_all
                qed
              qed
            qed
          qed
        qed
      qed
    }
    with stop aborted have ?thesis by blast
  }
  note line = this
  show ?thesis
  proof (cases "inputs s")
    case Nil
    then show ?thesis using nil aborted by blast
  next
    case (Cons i rest)
    then show ?thesis
      using ctrl line aborted by (cases i) blast+
  qed
qed

section \<open>Credentials and registration\<close>

lemma cleanup_result_class: "list_all (reg_event url reg) (events (cleanup_result w s ins))"
  by (cases "(w, s, ins)" rule: cleanup_result.cases) auto

lemma cleanup_result_count:
  "count_list (events (cleanup_result w s ins)) (Asked DeleteNow) = 1"
  "filter is_post (events (cleanup_result w s ins)) = []"
  by (cases "(w, s, ins)" rule: cleanup_result.cases; auto)+

lemma cleanup_result_no_post:
  "Http POST u body \<notin> set (events (cleanup_result w s ins))"
  by (cases "(w, s, ins)" rule: cleanup_result.cases) auto

lemma post_result_class:
  "list_all (reg_event url reg) (events (post_result w url (registration_payload reg j) s))"
  by (auto simp add: post_result_def split: http_outcome.splits option.splits)

lemma post_result_count:
  "count_list (events (post_result w url payload s)) (Asked DeleteNow) = 0"
  "filter is_post (events (post_result w url payload s)) = [Http POST url (Some payload)]"
  by (auto simp add: post_result_def split: http_outcome.splits option.splits)

lemma post_result_first:
  "Http POST url (Some payload) \<in> set (events (post_result w url payload s))"
  by (simp add: post_result_def)

lemma register_class:
  "list_all (reg_event (api_url b n) reg) (events (main_register w b n reg s))"
  by (simp add: register_eq post_and_cleanup_events post_result_class cleanup_result_class
      split: option.splits)

lemma register_count:
  "count_list (events (main_register w b n reg s)) (Asked DeleteNow) =
     length (filter is_post (events (main_register w b n reg s))) \<and>
   length (filter is_post (events (main_register w b n reg s))) \<le> 1"
  by (simp add: register_eq post_and_cleanup_events post_result_count cleanup_result_count
      split: option.splits)











lemma register_blob:
  assumes "cred s = Some c" and "Http POST u body \<in> set (events (main_register w b n reg s))"
  shows "\<exists>j. parse w c = Some j \<and> body = Some (registration_payload reg j)"
  using assms
  by (auto simp add: register_eq post_and_cleanup_events post_result_def cleanup_result_no_post
      split: option.splits if_splits http_outcome.splits)

lemma register_posts:
  assumes "cred s = Some c" and "\<not> open_fails w" and "parse w c = Some j"
  shows "Http POST (api_url b n) (Some (registration_payload reg j)) \<in>
           set (events (main_register w b n reg s))"
  using assms
  by (simp add: register_eq open_fails_def post_and_cleanup_events post_result_first)

lemma capture_event_cred: "capture_event e \<Longrightarrow> cred_event e"
  by (cases e) (auto simp add: capture_event_def)

lemma wait_loop_class: "list_all cred_event (events (wait_loop w ts s))"
  using wait_loop_events [of _ w ts s] by (auto simp add: list_all_iff capture_event_cred)

lemma waiting_class: "list_all cred_event (events (waiting w s))"
  by (simp add: waiting_events wait_loop_class)

lemma capture_class:
  "list_all cred_event (events (get_spotify_session_and_wait_for_credentials w s))"
  by (simp add: capture_eq capture_intro_def waiting_class)

lemma capture_outcome:
  "outcome (get_spotify_session_and_wait_for_credentials w s) \<in>
     {Return (), Raise (SystemExit 1), Raise KeyboardInterrupt, Diverge}"
  using wait_loop_outcome [of w "ticks w" s] wait_loop_outcome [of w "ticks w" "s\<lparr>cred := None\<rparr>"]
  by (auto simp add: capture_eq)

lemma credentials_eq:
  "main_credentials w s =
     (if cred s = None then get_spotify_session_and_wait_for_credentials w s
      else case inputs s of
        [] \<Rightarrow> (Raise EOFError, s, [Asked Overwrite])
      | CtrlC # rest \<Rightarrow> (Raise KeyboardInterrupt, s\<lparr>inputs := rest\<rparr>, [Asked Overwrite])
      | Line a # rest \<Rightarrow>
          after [Asked Overwrite, Entered Overwrite a]
           (if str_lower a = ''y''
            then get_spotify_session_and_wait_for_credentials w (s\<lparr>inputs := rest\<rparr>)
            else (Return (), s\<lparr>inputs := rest\<rparr>, [Log UsingExisting])))"
proof (cases "cred s")
  case None
  then show ?thesis
    by (simp add: main_credentials_def pbind_def exists_cred_def)
next
  case (Some c)
  show ?thesis
  proof (cases "inputs s")
    case Nil
    with Some show ?thesis
      by (simp add: main_credentials_def pbind_def exists_cred_def input_def)
  next
    case (Cons i rest)
    with Some show ?thesis
      by (cases i)
         (simp_all add: main_credentials_def pbind_def exists_cred_def input_def Let_def
           log_def emit_def)
  qed
qed

lemma credentials_class: "list_all cred_event (events (main_credentials w s))"
  using capture_class
  by (simp add: credentials_eq split: list.splits input_ev.splits)

lemma capture_no_entered:
  "Entered p l \<notin> set (events (get_spotify_session_and_wait_for_credentials w s))"
  using wait_loop_events [of "Entered p l" w "ticks w" s]
    wait_loop_events [of "Entered p l" w "ticks w" "s\<lparr>cred := None\<rparr>"]
  by (auto simp add: capture_eq capture_intro_def waiting_events capture_event_def)

lemma credentials_reuse:
  assumes "Entered Overwrite a \<in> set (events (main_credentials w s))"
    and "str_lower a \<noteq> ''y''"
  shows "\<exists>rest. main_credentials w s =
           (Return (), s\<lparr>inputs := rest\<rparr>, [Asked Overwrite, Entered Overwrite a, Log UsingExisting])"
  using assms
  by (auto simp add: credentials_eq capture_no_entered
      split: list.splits input_ev.splits if_splits)


lemma finish_events:
  "events (finish w b n reg s) =
     events (main_credentials w s) @
     (if outcome (main_credentials w s) = Return ()
      then events (main_register w b n reg (final (main_credentials w s))) else [])"
  by (simp add: finish_def events_pbind split: result.splits)

lemma finish_outcome:
  "outcome (finish w b n reg s) =
     (if outcome (main_credentials w s) = Return ()
      then outcome (main_register w b n reg (final (main_credentials w s)))
      else outcome (main_credentials w s))"
  by (simp add: finish_def outcome_pbind split: result.splits)

lemma events_on_interrupt:
  "events (on_interrupt x) =
     events x @ (if outcome x = Raise KeyboardInterrupt then [Log Cancelled] else [])"
  by (cases x rule: on_interrupt.cases) auto


section \<open>Properties of a run\<close>

lemma harmless_quiet:
  assumes "list_all harmless tr"
  shows "count_list tr (Asked DeleteNow) = 0" and "filter is_post tr = []"
    and "Entered AccountName [] \<notin> set tr" and "Entered Region r \<notin> set tr"
    and "Entered Overwrite a \<notin> set tr" and "Http POST u body \<notin> set tr"
    and "Log CouldNotRemoveExisting \<notin> set tr" and "Log CouldNotReadOrParse \<notin> set tr"
    and "Log ErrorDeleting \<notin> set tr" and "Log FailedToCallApi \<notin> set tr"
    and "OpenCred \<notin> set tr" and "ZsCreate \<notin> set tr" and "Sleep \<notin> set tr"
    and "Entered DeleteNow d \<notin> set tr"
proof -
  have h: "x \<in> set tr \<Longrightarrow> harmless x" for x
    using assms by (simp add: list_all_iff)
  show "count_list tr (Asked DeleteNow) = 0"
    using h [of "Asked DeleteNow"] by (auto simp add: count_list_0_iff)
  show "filter is_post tr = []"
  proof (rule ccontr)
    assume "filter is_post tr \<noteq> []"
    then obtain x where "x \<in> set tr" "is_post x"
      by (auto simp add: filter_empty_conv)
    with h [of x] show False
      by (cases x rule: is_post.cases) auto
  qed
  show "Entered AccountName [] \<notin> set tr" using h [of "Entered AccountName []"] by auto
  show "Entered Region r \<notin> set tr" using h [of "Entered Region r"] by auto
  show "Entered Overwrite a \<notin> set tr" using h [of "Entered Overwrite a"] by auto
  show "Http POST u body \<notin> set tr" using h [of "Http POST u body"] by auto
  show "Log CouldNotRemoveExisting \<notin> set tr" using h [of "Log CouldNotRemoveExisting"] by auto
  show "Log CouldNotReadOrParse \<notin> set tr" using h [of "Log CouldNotReadOrParse"] by auto
  show "Log ErrorDeleting \<notin> set tr" using h [of "Log ErrorDeleting"] by auto
  show "Log FailedToCallApi \<notin> set tr" using h [of "Log FailedToCallApi"] by auto
  show "OpenCred \<notin> set tr" using h [of OpenCred] by auto
  show "ZsCreate \<notin> set tr" using h [of ZsCreate] by auto
  show "Sleep \<notin> set tr" using h [of Sleep] by auto
  show "Entered DeleteNow d \<notin> set tr" using h [of "Entered DeleteNow d"] by auto
qed

lemma boot_quiet:
  assumes "list_all boot_event tr"
  shows "count_list tr (Asked DeleteNow) = 0" and "filter is_post tr = []"
    and "Entered AccountName n \<notin> set tr" and "Entered Region r \<notin> set tr"
    and "Entered BaseUrl e \<notin> set tr"
    and "Entered Overwrite a \<notin> set tr" and "Http POST u body \<notin> set tr"
    and "Log CouldNotRemoveExisting \<notin> set tr" and "Log CouldNotReadOrParse \<notin> set tr"
    and "Log ErrorDeleting \<notin> set tr" and "Log FailedToCallApi \<notin> set tr"
    and "OpenCred \<notin> set tr" and "ZsCreate \<notin> set tr" and "Sleep \<notin> set tr"
    and "Entered DeleteNow d \<notin> set tr"
proof -
  have h: "x \<in> set tr \<Longrightarrow> boot_event x" for x
    using assms by (simp add: list_all_iff)
  show "Entered AccountName n \<notin> set tr" using h [of "Entered AccountName n"] by auto
  show "Entered BaseUrl e \<notin> set tr" using h [of "Entered BaseUrl e"] by auto
qed (use harmless_quiet [OF list_all_boot_harmless [OF assms]] in auto)

lemma cred_quiet:
  assumes "list_all cred_event tr"
  shows "count_list tr (Asked DeleteNow) = 0" and "filter is_post tr = []"
    and "Entered AccountName n \<notin> set tr" and "Entered Region r \<notin> set tr"
    and "Entered BaseUrl e \<notin> set tr" and "Http POST u body \<notin> set tr"
    and "Log CouldNotReadOrParse \<notin> set tr"
    and "Log ErrorDeleting \<notin> set tr" and "Log FailedToCallApi \<notin> set tr"
    and "OpenCred \<notin> set tr" and "Entered DeleteNow d \<notin> set tr"
proof -
  have h: "x \<in> set tr \<Longrightarrow> cred_event x" for x
    using assms by (simp add: list_all_iff)
  show "count_list tr (Asked DeleteNow) = 0"
    using h [of "Asked DeleteNow"] by (auto simp add: count_list_0_iff)
  show "filter is_post tr = []"
  proof (rule ccontr)
    assume "filter is_post tr \<noteq> []"
    then obtain x where "x \<in> set tr" "is_post x"
      by (auto simp add: filter_empty_conv)
    with h [of x] show False
      by (cases x rule: is_post.cases) auto
  qed
  show "Entered AccountName n \<notin> set tr" using h [of "Entered AccountName n"] by auto
  show "Entered Region r \<notin> set tr" using h [of "Entered Region r"] by auto
  show "Entered BaseUrl e \<notin> set tr" using h [of "Entered BaseUrl e"] by auto
  show "Http POST u body \<notin> set tr" using h [of "Http POST u body"] by auto
  show "Log CouldNotReadOrParse \<notin> set tr" using h [of "Log CouldNotReadOrParse"] by auto
  show "Log ErrorDeleting \<notin> set tr" using h [of "Log ErrorDeleting"] by auto
  show "Log FailedToCallApi \<notin> set tr" using h [of "Log FailedToCallApi"] by auto
  show "OpenCred \<notin> set tr" using h [of OpenCred] by auto
  show "Entered DeleteNow d \<notin> set tr" using h [of "Entered DeleteNow d"] by auto
qed

lemma reg_quiet:
  assumes "list_all (reg_event url reg) tr"
  shows "Entered AccountName n \<notin> set tr" and "Entered Region r \<notin> set tr"
    and "Entered BaseUrl e \<notin> set tr" and "Entered Overwrite a \<notin> set tr"
    and "Log CouldNotRemoveExisting \<notin> set tr"
    and "ZsCreate \<notin> set tr" and "Sleep \<notin> set tr"
    and "Http POST u body \<in> set tr \<Longrightarrow>
           u = url \<and> (\<exists>j. body = Some (registration_payload reg j))"
proof -
  have h: "x \<in> set tr \<Longrightarrow> reg_event url reg x" for x
    using assms by (simp add: list_all_iff)
  show "Entered AccountName n \<notin> set tr" using h [of "Entered AccountName n"] by auto
  show "Entered Region r \<notin> set tr" using h [of "Entered Region r"] by auto
  show "Entered BaseUrl e \<notin> set tr" using h [of "Entered BaseUrl e"] by auto
  show "Entered Overwrite a \<notin> set tr" using h [of "Entered Overwrite a"] by auto
  show "Log CouldNotRemoveExisting \<notin> set tr" using h [of "Log CouldNotRemoveExisting"] by auto
  show "ZsCreate \<notin> set tr" using h [of ZsCreate] by auto
  show "Sleep \<notin> set tr" using h [of Sleep] by auto
  show "Http POST u body \<in> set tr \<Longrightarrow>
           u = url \<and> (\<exists>j. body = Some (registration_payload reg j))"
    using h [of "Http POST u body"] by auto
qed

lemmas credentials_quiet = cred_quiet [OF credentials_class]

lemmas register_quiet = reg_quiet [OF register_class]

lemma run_registers:
  assumes "http w GET (api_config_url (used_base_url e)) None = Responds resp"
    and "\<not> (400 \<le> status_code resp \<and> status_code resp < 600)"
    and "parse w (resp_text resp) = Some (JObj kvs)"
    and "map_of kvs ''client_id'' = Some cid" and "truthy cid"
    and "map_of kvs ''client_secret'' = Some csec" and "truthy csec"
    and "n \<noteq> []" and "r \<noteq> []" and "str_lower a \<noteq> ''y''"
    and "\<not> open_fails w" and "parse w c = Some j"
  shows "Http POST (api_url (used_base_url e) n) (Some (registration_payload (str_upper w r) j))
           \<in> set (events (run w (Line e # Line n # Line r # Line a # rest) (Some c)))"
proof -
  let ?b = "used_base_url e" and ?reg = "str_upper w r"
  let ?s = "\<lparr>inputs = Line a # rest, cred = Some c\<rparr>"
  from assms(1-7) have rep: "get_report w (api_config_url ?b) = Configured"
    by (simp add: get_report_def lookup_def)
  from assms(10) have cr: "main_credentials w ?s =
      (Return (), \<lparr>inputs = rest, cred = Some c\<rparr>,
       [Asked Overwrite, Entered Overwrite a, Log UsingExisting])"
    by (simp add: credentials_eq)
  from register_posts [of "\<lparr>inputs = rest, cred = Some c\<rparr>" c w j ?b n ?reg] assms(11,12)
  have "Http POST (api_url ?b n) (Some (registration_payload ?reg j))
      \<in> set (events (finish w ?b n ?reg ?s))"
    by (simp add: finish_events cr)
  with assms(8,9) show ?thesis
    by (simp add: run_def main_eq gate_def boot_eq boot_result_def rep events_on_interrupt)
qed

text \<open>
  Claim C7. In every run in which the account name entered is empty, or the region entered
  is empty, the program exits with status 1 and has issued no registration POST.
\<close>

theorem abort_on_empty_input:
  assumes "Entered AccountName [] \<in> set (events (run w ins file)) \<or>
           Entered Region [] \<in> set (events (run w ins file))"
  shows "exit_status (outcome (run w ins file)) = Some 1 \<and>
         filter is_post (events (run w ins file)) = []"
proof (cases rule: main_shape [of w "\<lparr>inputs = ins, cred = file\<rparr>"])
  case aborted
  with assms harmless_quiet(3,4) [OF aborted] show ?thesis
    by (simp add: run_def)
next
  case (empty_name pre)
  then show ?thesis
    by (simp add: run_def harmless_quiet)
next
  case (empty_region pre)
  then show ?thesis
    by (simp add: run_def harmless_quiet)
next
  case (finish e n r s' pre)
  with assms show ?thesis
    by (auto simp add: run_def events_on_interrupt finish_events boot_quiet credentials_quiet
        register_quiet split: if_splits)
qed

text \<open>A server already configured, and an empty account name.\<close>

theorem abort_on_empty_input_witness:
  "exit_status (outcome (run (example_world (status 200 ''configured'') Interrupted Interrupted)
      [Line ''host'', Line []] None)) = Some 1 \<and>
   filter is_post (events (run (example_world (status 200 ''configured'') Interrupted Interrupted)
      [Line ''host'', Line []] None)) = []"
proof -
  have h: "Entered AccountName [] \<in> set (events (run
        (example_world (status 200 ''configured'') Interrupted Interrupted)
        [Line ''host'', Line []] None)) \<or>
      Entered Region [] \<in> set (events (run
        (example_world (status 200 ''configured'') Interrupted Interrupted)
        [Line ''host'', Line []] None))"
    by (simp add: model_defs example_defs prog_defs)
  from abort_on_empty_input [OF h] show ?thesis .
qed

text \<open>
  Claim C10. Whatever account name is entered, a registration POST of the run goes to the
  base URL in use (the line entered, or the default, with \<open>http://\<close> put in front when
  it has no scheme) without its trailing slashes, followed by
  \<open>/api/credentials/spotify/\<close> and the account name exactly as entered, and that name is
  not empty. No non-empty name is refused: with a server that is configured, an existing
  credential file that opens and parses, and the capture declined, the POST to that URL is
  issued for every non-empty account name, whatever characters it has.
\<close>

theorem registration_url_interpolated:
  "(Http POST u body \<in> set (events (run w ins file)) \<and>
    Entered BaseUrl e \<in> set (events (run w ins file)) \<and>
    Entered AccountName n \<in> set (events (run w ins file)) \<longrightarrow>
      n \<noteq> [] \<and> u = rstrip_slash (used_base_url e) @ ''/api/credentials/spotify/'' @ n) \<and>
   (http w GET (api_config_url (used_base_url e')) None = Responds resp \<and>
    \<not> (400 \<le> status_code resp \<and> status_code resp < 600) \<and>
    parse w (resp_text resp) = Some (JObj kvs) \<and>
    map_of kvs ''client_id'' = Some cid \<and> truthy cid \<and>
    map_of kvs ''client_secret'' = Some csec \<and> truthy csec \<and>
    n' \<noteq> [] \<and> r \<noteq> [] \<and> str_lower a \<noteq> ''y'' \<and> \<not> open_fails w \<and> parse w c = Some j \<longrightarrow>
      Http POST (rstrip_slash (used_base_url e') @ ''/api/credentials/spotify/'' @ n')
        (Some (JObj [(''region'', JStr (str_upper w r)), (''blob_content'', j)]))
      \<in> set (events (run w (Line e' # Line n' # Line r # Line a # rest) (Some c))))"
proof -
  have 1: "n \<noteq> [] \<and> u = rstrip_slash (used_base_url e) @ ''/api/credentials/spotify/'' @ n"
    if a: "Http POST u body \<in> set (events (run w ins file)) \<and>
      Entered BaseUrl e \<in> set (events (run w ins file)) \<and>
      Entered AccountName n \<in> set (events (run w ins file))"
  proof (cases rule: main_shape [of w "\<lparr>inputs = ins, cred = file\<rparr>"])
    case aborted
    with a harmless_quiet(6) [OF aborted] show ?thesis
      by (simp add: run_def)
  next
    case (empty_name pre)
    with a show ?thesis
      by (simp add: run_def harmless_quiet)
  next
    case (empty_region pre)
    with a show ?thesis
      by (simp add: run_def harmless_quiet)
  next
    case (finish e0 n0 r0 s' pre)
    from a finish have e: "e = e0"
      by (auto simp add: run_def events_on_interrupt finish_events boot_quiet credentials_quiet
          register_quiet split: if_splits)
    from a finish have n: "n = n0"
      by (auto simp add: run_def events_on_interrupt finish_events boot_quiet credentials_quiet
          register_quiet split: if_splits)
    from a finish have "u = api_url (used_base_url e0) n0"
      by (auto simp add: run_def events_on_interrupt finish_events boot_quiet credentials_quiet
          dest: register_quiet(8) split: if_splits)
    with e n finish(1) show ?thesis
      by (simp add: api_url_def)
  qed
  have 2: "Http POST (rstrip_slash (used_base_url e') @ ''/api/credentials/spotify/'' @ n')
        (Some (JObj [(''region'', JStr (str_upper w r)), (''blob_content'', j)]))
      \<in> set (events (run w (Line e' # Line n' # Line r # Line a # rest) (Some c)))"
    if "http w GET (api_config_url (used_base_url e')) None = Responds resp \<and>
      \<not> (400 \<le> status_code resp \<and> status_code resp < 600) \<and>
      parse w (resp_text resp) = Some (JObj kvs) \<and>
      map_of kvs ''client_id'' = Some cid \<and> truthy cid \<and>
      map_of kvs ''client_secret'' = Some csec \<and> truthy csec \<and>
      n' \<noteq> [] \<and> r \<noteq> [] \<and> str_lower a \<noteq> ''y'' \<and> \<not> open_fails w \<and> parse w c = Some j"
  proof -
    from that
    have "Http POST (api_url (used_base_url e') n') (Some (registration_payload (str_upper w r) j))
        \<in> set (events (run w (Line e' # Line n' # Line r # Line a # rest) (Some c)))"
      using run_registers [where resp = resp and kvs = kvs and cid = cid and csec = csec]
      by blast
    then show ?thesis
      by (simp add: api_url_def registration_payload_def)
  qed
  from 1 2 show ?thesis
    by blast
qed

text \<open>An account name with a space, a slash, a question mark and a hash.\<close>

theorem registration_url_interpolated_witness:
  "Http POST ''http://host/api/credentials/spotify/a b/c?d#e''
     (Some (JObj [(''region'', JStr ''US''), (''blob_content'', JObj [(''username'', JStr ''user'')])]))
   \<in> set (events (run (example_world (status 200 ''configured'') Interrupted (status 200 []))
        [Line ''host/'', Line ''a b/c?d#e'', Line ''us'', Line ''n'', Line ''n''] (Some ''blob'')))"
proof -
  let ?w = "example_world (status 200 ''configured'') Interrupted (status 200 [])"
  have h: "http ?w GET (api_config_url (used_base_url ''host/'')) None =
        Responds \<lparr>status_code = 200, resp_text = ''configured''\<rparr> \<and>
      \<not> (400 \<le> status_code \<lparr>status_code = 200, resp_text = ''configured''\<rparr> \<and>
         status_code \<lparr>status_code = 200, resp_text = ''configured''\<rparr> < 600) \<and>
      parse ?w (resp_text \<lparr>status_code = 200, resp_text = ''configured''\<rparr>) =
        Some (JObj [(''client_id'', JStr ''id''), (''client_secret'', JStr ''secret'')]) \<and>
      map_of [(''client_id'', JStr ''id''), (''client_secret'', JStr ''secret'')] ''client_id'' =
        Some (JStr ''id'') \<and> truthy (JStr ''id'') \<and>
      map_of [(''client_id'', JStr ''id''), (''client_secret'', JStr ''secret'')] ''client_secret'' =
        Some (JStr ''secret'') \<and> truthy (JStr ''secret'') \<and>
      ''a b/c?d#e'' \<noteq> [] \<and> ''us'' \<noteq> [] \<and> str_lower ''n'' \<noteq> ''y'' \<and> \<not> open_fails ?w \<and>
      parse ?w ''blob'' = Some (JObj [(''username'', JStr ''user'')])"
    by (simp add: example_defs model_defs)
  from registration_url_interpolated [where w = ?w and e' = "''host/''" and n' = "''a b/c?d#e''"
      and r = "''us''" and a = "''n''" and c = "''blob''" and rest = "[Line ''n'']"
      and resp = "\<lparr>status_code = 200, resp_text = ''configured''\<rparr>"
      and kvs = "[(''client_id'', JStr ''id''), (''client_secret'', JStr ''secret'')]"
      and cid = "JStr ''id''" and csec = "JStr ''secret''"
      and j = "JObj [(''username'', JStr ''user'')]"] h
  have "Http POST (rstrip_slash (used_base_url ''host/'') @ ''/api/credentials/spotify/'' @ ''a b/c?d#e'')
        (Some (JObj [(''region'', JStr (str_upper ?w ''us'')),
                     (''blob_content'', JObj [(''username'', JStr ''user'')])]))
      \<in> set (events (run ?w [Line ''host/'', Line ''a b/c?d#e'', Line ''us'', Line ''n'', Line ''n'']
            (Some ''blob'')))"
    by blast
  then show ?thesis
    by (simp add: model_defs used_base_url_def)
qed

text \<open>
  Claim C4, as amended. Whenever a registration POST is issued, the region in its payload is
  the uppercased form of the line entered as the region, and that line is not empty. The
  uppercased form is Python's: on an ASCII line every lowercase letter is replaced by its
  capital. The length of the line is not checked: with a server that is configured, an
  existing credential file that opens and parses, and the capture declined, the POST with
  the uppercased region is issued for every non-empty line.
\<close>

theorem region_uppercased:
  "(Http POST u body \<in> set (events (run w ins file)) \<and>
    Entered Region r \<in> set (events (run w ins file)) \<longrightarrow>
      r \<noteq> [] \<and>
      (\<exists>blob. body = Some (JObj [(''region'', JStr (str_upper w r)), (''blob_content'', blob)]))) \<and>
   (list_all is_ascii r \<longrightarrow> str_upper w r = map upper_char r) \<and>
   (http w GET (api_config_url (used_base_url e)) None = Responds resp \<and>
    \<not> (400 \<le> status_code resp \<and> status_code resp < 600) \<and>
    parse w (resp_text resp) = Some (JObj kvs) \<and>
    map_of kvs ''client_id'' = Some cid \<and> truthy cid \<and>
    map_of kvs ''client_secret'' = Some csec \<and> truthy csec \<and>
    n \<noteq> [] \<and> r' \<noteq> [] \<and> str_lower a \<noteq> ''y'' \<and> \<not> open_fails w \<and> parse w c = Some j \<longrightarrow>
      Http POST (rstrip_slash (used_base_url e) @ ''/api/credentials/spotify/'' @ n)
        (Some (JObj [(''region'', JStr (str_upper w r')), (''blob_content'', j)]))
      \<in> set (events (run w (Line e # Line n # Line r' # Line a # rest) (Some c))))"
proof -
  have 1: "r \<noteq> [] \<and>
      (\<exists>blob. body = Some (JObj [(''region'', JStr (str_upper w r)), (''blob_content'', blob)]))"
    if a: "Http POST u body \<in> set (events (run w ins file)) \<and>
      Entered Region r \<in> set (events (run w ins file))"
  proof (cases rule: main_shape [of w "\<lparr>inputs = ins, cred = file\<rparr>"])
    case aborted
    with a harmless_quiet(6) [OF aborted] show ?thesis
      by (simp add: run_def)
  next
    case (empty_name pre)
    with a show ?thesis
      by (simp add: run_def harmless_quiet)
  next
    case (empty_region pre)
    with a show ?thesis
      by (simp add: run_def harmless_quiet)
  next
    case (finish e0 n0 r0 s' pre)
    from a finish have r: "r = r0"
      by (auto simp add: run_def events_on_interrupt finish_events boot_quiet credentials_quiet
          register_quiet split: if_splits)
    from a finish have "\<exists>j. body = Some (registration_payload (str_upper w r0) j)"
      by (auto simp add: run_def events_on_interrupt finish_events boot_quiet credentials_quiet
          dest: register_quiet(8) split: if_splits)
    with r finish(2) show ?thesis
      by (simp add: registration_payload_def)
  qed
  have 2: "str_upper w r = map upper_char r" if "list_all is_ascii r"
    using that by (simp add: str_upper_def)
  have 3: "Http POST (rstrip_slash (used_base_url e) @ ''/api/credentials/spotify/'' @ n)
        (Some (JObj [(''region'', JStr (str_upper w r')), (''blob_content'', j)]))
      \<in> set (events (run w (Line e # Line n # Line r' # Line a # rest) (Some c)))"
    if "http w GET (api_config_url (used_base_url e)) None = Responds resp \<and>
      \<not> (400 \<le> status_code resp \<and> status_code resp < 600) \<and>
      parse w (resp_text resp) = Some (JObj kvs) \<and>
      map_of kvs ''client_id'' = Some cid \<and> truthy cid \<and>
      map_of kvs ''client_secret'' = Some csec \<and> truthy csec \<and>
      n \<noteq> [] \<and> r' \<noteq> [] \<and> str_lower a \<noteq> ''y'' \<and> \<not> open_fails w \<and> parse w c = Some j"
  proof -
    from that
    have "Http POST (api_url (used_base_url e) n) (Some (registration_payload (str_upper w r') j))
        \<in> set (events (run w (Line e # Line n # Line r' # Line a # rest) (Some c)))"
      using run_registers [where resp = resp and kvs = kvs and cid = cid and csec = csec]
      by blast
    then show ?thesis
      by (simp add: api_url_def registration_payload_def)
  qed
  from 1 2 3 show ?thesis
    by blast
qed

text \<open>The region \<open>us\<close> is sent as \<open>US\<close>.\<close>

theorem region_uppercased_witness:
  "Http POST ''http://host/api/credentials/spotify/me''
     (Some (JObj [(''region'', JStr ''US''), (''blob_content'', JObj [(''username'', JStr ''user'')])]))
   \<in> set (events (run (example_world (status 200 ''configured'') Interrupted (status 200 []))
        [Line ''host'', Line ''me'', Line ''us'', Line ''n'', Line ''n''] (Some ''blob'')))"
proof -
  let ?w = "example_world (status 200 ''configured'') Interrupted (status 200 [])"
  have h: "http ?w GET (api_config_url (used_base_url ''host'')) None =
        Responds \<lparr>status_code = 200, resp_text = ''configured''\<rparr> \<and>
      \<not> (400 \<le> status_code \<lparr>status_code = 200, resp_text = ''configured''\<rparr> \<and>
         status_code \<lparr>status_code = 200, resp_text = ''configured''\<rparr> < 600) \<and>
      parse ?w (resp_text \<lparr>status_code = 200, resp_text = ''configured''\<rparr>) =
        Some (JObj [(''client_id'', JStr ''id''), (''client_secret'', JStr ''secret'')]) \<and>
      map_of [(''client_id'', JStr ''id''), (''client_secret'', JStr ''secret'')] ''client_id'' =
        Some (JStr ''id'') \<and> truthy (JStr ''id'') \<and>
      map_of [(''client_id'', JStr ''id''), (''client_secret'', JStr ''secret'')] ''client_secret'' =
        Some (JStr ''secret'') \<and> truthy (JStr ''secret'') \<and>
      ''me'' \<noteq> [] \<and> ''us'' \<noteq> [] \<and> str_lower ''n'' \<noteq> ''y'' \<and> \<not> open_fails ?w \<and>
      parse ?w ''blob'' = Some (JObj [(''username'', JStr ''user'')])"
    by (simp add: example_defs model_defs)
  from region_uppercased [where w = ?w and e = "''host''" and n = "''me''"
      and r' = "''us''" and a = "''n''" and c = "''blob''" and rest = "[Line ''n'']"
      and resp = "\<lparr>status_code = 200, resp_text = ''configured''\<rparr>"
      and kvs = "[(''client_id'', JStr ''id''), (''client_secret'', JStr ''secret'')]"
      and cid = "JStr ''id''" and csec = "JStr ''secret''"
      and j = "JObj [(''username'', JStr ''user'')]"] h
  have "Http POST (rstrip_slash (used_base_url ''host'') @ ''/api/credentials/spotify/'' @ ''me'')
        (Some (JObj [(''region'', JStr (str_upper ?w ''us'')),
                     (''blob_content'', JObj [(''username'', JStr ''user'')])]))
      \<in> set (events (run ?w [Line ''host'', Line ''me'', Line ''us'', Line ''n'', Line ''n'']
            (Some ''blob'')))"
    by blast
  then show ?thesis
    by (simp add: model_defs used_base_url_def)
qed

text \<open>
  Claim C4 as stated fails: the region \<open>usa\<close> is accepted and sent as \<open>USA\<close>, which has
  three letters.
\<close>

theorem region_three_letters_counterexample:
  "Entered Region ''usa''
   \<in> set (events (run (example_world (status 200 ''configured'') Interrupted (status 200 []))
        [Line ''host'', Line ''me'', Line ''usa'', Line ''n'', Line ''n''] (Some ''blob''))) \<and>
   Http POST ''http://host/api/credentials/spotify/me''
     (Some (JObj [(''region'', JStr ''USA''), (''blob_content'', JObj [(''username'', JStr ''user'')])]))
   \<in> set (events (run (example_world (status 200 ''configured'') Interrupted (status 200 []))
        [Line ''host'', Line ''me'', Line ''usa'', Line ''n'', Line ''n''] (Some ''blob''))) \<and>
   length ''USA'' \<noteq> 2"
  by (simp add: model_defs example_defs prog_defs)

text \<open>
  Claim C3, as amended. In every run the deletion prompt is shown exactly as many times as
  the registration POST is attempted, and that is at most once: once the POST has been
  attempted the prompt follows, whether the POST succeeds, fails or is interrupted, and
  when the run ends before the POST (also when the credential file cannot be opened or
  parsed) there is no prompt.
\<close>

theorem deletion_prompt_once_per_post:
  "count_list (events (run w ins file)) (Asked DeleteNow) =
     length (filter is_post (events (run w ins file))) \<and>
   length (filter is_post (events (run w ins file))) \<le> 1"
proof (cases rule: main_shape [of w "\<lparr>inputs = ins, cred = file\<rparr>"])
  case aborted
  from harmless_quiet(1,2) [OF aborted] show ?thesis
    by (simp add: run_def)
next
  case (empty_name pre)
  then show ?thesis
    by (simp add: run_def harmless_quiet)
next
  case (empty_region pre)
  then show ?thesis
    by (simp add: run_def harmless_quiet)
next
  case (finish e n r s' pre)
  then show ?thesis
    using register_count [of w "used_base_url e" n "str_upper w r" "final (main_credentials w s')"]
    by (simp add: run_def events_on_interrupt finish_events boot_quiet credentials_quiet)
qed

text \<open>A POST answered with status 500: the prompt is shown once.\<close>

theorem deletion_prompt_once_per_post_witness:
  "count_list (events (run (example_world (status 200 ''configured'') Interrupted (status 500 []))
        [Line ''host'', Line ''me'', Line ''us'', Line ''n'', Line ''n''] (Some ''blob'')))
     (Asked DeleteNow) = 1 \<and>
   exit_status (outcome (run (example_world (status 200 ''configured'') Interrupted (status 500 []))
        [Line ''host'', Line ''me'', Line ''us'', Line ''n'', Line ''n''] (Some ''blob''))) = Some 1"
proof -
  let ?x = "run (example_world (status 200 ''configured'') Interrupted (status 500 []))
        [Line ''host'', Line ''me'', Line ''us'', Line ''n'', Line ''n''] (Some ''blob'')"
  have p: "filter is_post (events ?x) =
      [Http POST ''http://host/api/credentials/spotify/me''
        (Some (JObj [(''region'', JStr ''US''), (''blob_content'', JObj [(''username'', JStr ''user'')])]))]"
    and o: "outcome ?x = Raise (SystemExit 1)"
    by (simp_all add: model_defs example_defs prog_defs)
  from deletion_prompt_once_per_post [of "example_world (status 200 ''configured'') Interrupted (status 500 [])"
      "[Line ''host'', Line ''me'', Line ''us'', Line ''n'', Line ''n'']" "Some ''blob''"]
  show ?thesis
    by (simp add: p o)
qed

text \<open>
  Claim C3 as stated fails: with a credential file that is not JSON the registration phase
  runs (the file is opened) and fails, and the deletion prompt is never shown.
\<close>

theorem registration_without_prompt_counterexample:
  "events (run (example_world (status 200 ''configured'') Interrupted (status 200 []))
        [Line ''host'', Line ''me'', Line ''us'', Line ''n'', Line ''y''] (Some ''garbage'')) =
     [Asked BaseUrl, Entered BaseUrl ''host'', Log CheckingServer,
      Http GET ''http://host/api/credentials/spotify_api_config'' None, Log AlreadyConfigured,
      Asked AccountName, Entered AccountName ''me'', Asked Region, Entered Region ''us'',
      Asked Overwrite, Entered Overwrite ''n'', Log UsingExisting, OpenCred,
      Log CouldNotReadOrParse] \<and>
   outcome (run (example_world (status 200 ''configured'') Interrupted (status 200 []))
        [Line ''host'', Line ''me'', Line ''us'', Line ''n'', Line ''y''] (Some ''garbage'')) =
     Raise (SystemExit 1) \<and>
   count_list (events (run (example_world (status 200 ''configured'') Interrupted (status 200 []))
        [Line ''host'', Line ''me'', Line ''us'', Line ''n'', Line ''y''] (Some ''garbage'')))
     (Asked DeleteNow) = 0"
  by (simp add: model_defs example_defs prog_defs)

text \<open>
  Claim C5. When \<open>credentials.json\<close> exists and the answer to the overwrite prompt is not
  \<open>y\<close>, the capture phase is skipped: no responder is started and nothing is waited for.
  Every registration POST of the run carries, as \<open>blob_content\<close>, the parsed content of the
  file as it was at the start; and when the file can be opened and parses, that POST is
  issued.
\<close>

theorem existing_credentials_reused:
  assumes "Entered Overwrite a \<in> set (events (run w ins (Some c)))"
    and "str_lower a \<noteq> ''y''"
  shows "ZsCreate \<notin> set (events (run w ins (Some c))) \<and>
         Sleep \<notin> set (events (run w ins (Some c))) \<and>
         (Http POST u body \<in> set (events (run w ins (Some c))) \<longrightarrow>
            (\<exists>j reg. parse w c = Some j \<and>
               body = Some (JObj [(''region'', JStr reg), (''blob_content'', j)]))) \<and>
         (\<not> open_fails w \<and> parse w c = Some j \<longrightarrow>
            (\<exists>url reg. Http POST url (Some (JObj [(''region'', JStr reg), (''blob_content'', j)]))
               \<in> set (events (run w ins (Some c)))))"
proof (cases rule: main_shape [of w "\<lparr>inputs = ins, cred = Some c\<rparr>"])
  case aborted
  with assms(1) harmless_quiet(5) [OF aborted] show ?thesis
    by (simp add: run_def)
next
  case (empty_name pre)
  with assms(1) show ?thesis
    by (simp add: run_def harmless_quiet)
next
  case (empty_region pre)
  with assms(1) show ?thesis
    by (simp add: run_def harmless_quiet)
next
  case (finish e n r s' pre)
  let ?b = "used_base_url e" and ?reg = "str_upper w r"
  from assms(1) finish have "Entered Overwrite a \<in> set (events (main_credentials w s'))"
    by (auto simp add: run_def events_on_interrupt finish_events boot_quiet register_quiet
        split: if_splits)
  from credentials_reuse [OF this assms(2)] obtain rest where
    cr: "main_credentials w s' =
      (Return (), s'\<lparr>inputs := rest\<rparr>, [Asked Overwrite, Entered Overwrite a, Log UsingExisting])"
    by blast
  let ?s = "s'\<lparr>inputs := rest\<rparr>"
  from finish(3) have cs: "cred ?s = Some c"
    by simp
  have ev: "events (run w ins (Some c)) =
      [Asked BaseUrl, Entered BaseUrl e] @ pre @
      [Asked AccountName, Entered AccountName n, Asked Region, Entered Region r,
       Asked Overwrite, Entered Overwrite a, Log UsingExisting] @
      events (main_register w ?b n ?reg ?s) @
      (if outcome (main_register w ?b n ?reg ?s) = Raise KeyboardInterrupt
       then [Log Cancelled] else [])"
    using finish(5) cr
    by (simp add: run_def events_on_interrupt finish_events finish_outcome)
  have "ZsCreate \<notin> set (events (run w ins (Some c)))"
    and "Sleep \<notin> set (events (run w ins (Some c)))"
    using finish(4) by (simp_all add: ev boot_quiet register_quiet)
  moreover have "\<exists>j reg. parse w c = Some j \<and>
        body = Some (JObj [(''region'', JStr reg), (''blob_content'', j)])"
    if "Http POST u body \<in> set (events (run w ins (Some c)))"
  proof -
    from that finish(4) have "Http POST u body \<in> set (events (main_register w ?b n ?reg ?s))"
      by (auto simp add: ev boot_quiet split: if_splits)
    from register_blob [OF cs this] show ?thesis
      by (auto simp add: registration_payload_def)
  qed
  moreover have "\<exists>url reg. Http POST url (Some (JObj [(''region'', JStr reg), (''blob_content'', j)]))
        \<in> set (events (run w ins (Some c)))"
    if "\<not> open_fails w \<and> parse w c = Some j"
  proof -
    from that register_posts [OF cs, of w j ?b n ?reg]
    have "Http POST (api_url ?b n) (Some (registration_payload ?reg j))
        \<in> set (events (run w ins (Some c)))"
      by (simp add: ev)
    then show ?thesis
      by (auto simp add: registration_payload_def)
  qed
  ultimately show ?thesis
    by blast
qed

text \<open>An existing file, the answer \<open>N\<close>, and the POST that carries its content.\<close>

theorem existing_credentials_reused_witness:
  "ZsCreate \<notin> set (events (run (example_world (status 200 ''configured'') Interrupted (status 200 []))
        [Line ''host'', Line ''me'', Line ''us'', Line ''N'', Line ''n''] (Some ''blob''))) \<and>
   Http POST ''http://host/api/credentials/spotify/me''
     (Some (JObj [(''region'', JStr ''US''), (''blob_content'', JObj [(''username'', JStr ''user'')])]))
   \<in> set (events (run (example_world (status 200 ''configured'') Interrupted (status 200 []))
        [Line ''host'', Line ''me'', Line ''us'', Line ''N'', Line ''n''] (Some ''blob'')))"
proof -
  let ?w = "example_world (status 200 ''configured'') Interrupted (status 200 [])"
  let ?x = "run ?w [Line ''host'', Line ''me'', Line ''us'', Line ''N'', Line ''n''] (Some ''blob'')"
  have ev: "events ?x =
     [Asked BaseUrl, Entered BaseUrl ''host'', Log CheckingServer,
      Http GET ''http://host/api/credentials/spotify_api_config'' None, Log AlreadyConfigured,
      Asked AccountName, Entered AccountName ''me'', Asked Region, Entered Region ''us'',
      Asked Overwrite, Entered Overwrite ''N'', Log UsingExisting, OpenCred,
      Log (Registering ''me'' ''http://host/api/credentials/spotify/me''),
      Http POST ''http://host/api/credentials/spotify/me''
        (Some (JObj [(''region'', JStr ''US''), (''blob_content'', JObj [(''username'', JStr ''user'')])])),
      Log RegisteredOk, Asked DeleteNow, Entered DeleteNow ''n'', Log CredentialsNotDeleted]"
    by (simp add: model_defs example_defs prog_defs)
  have h: "Entered Overwrite ''N'' \<in> set (events ?x)" "str_lower ''N'' \<noteq> ''y''"
    by (simp_all add: ev) (simp add: model_defs)
  from existing_credentials_reused [OF h]
  have "ZsCreate \<notin> set (events ?x)"
    by blast
  then show ?thesis
    by (simp add: ev)
qed




end
